theory Spec2Isabelle
  imports Main
begin

section \<open>Data model\<close>

text \<open>
  The program is one Python module, \<^verbatim>\<open>main.py\<close>: a FastAPI application with a
  \<^verbatim>\<open>POST /query/\<close> handler that hands a fixed conversation to an SQL agent, a
  keep-alive job registered with a background scheduler, and a dependency that
  fetches the process-wide database connection.

  Exceptions are values of type \<open>exn\<close>. The type stands for the instances of Python's
  class \<^verbatim>\<open>Exception\<close>, which is what both handlers of the module name
  (\<^verbatim>\<open>except Exception as e\<close>); the interpreter's exit signals, which derive from
  \<^verbatim>\<open>BaseException\<close> only, are not part of the model.
\<close>

datatype exn =
    HTTPException (status_code : nat) (detail : string)
  | KeyError string
  | Error string

text \<open>
  Modelled from the spec: the request body type \<^verbatim>\<open>ModelInput\<close> of module
  \<^verbatim>\<open>custom_datatypes\<close>, a single free-text field named \<^verbatim>\<open>userinput\<close>.
\<close>

datatype ModelInput = ModelInput (userinput_text : string)

text \<open>
  Objects of the collaborating libraries. A connection is identified by the order of
  its construction; the other objects are identified by the arguments they were built
  from.
\<close>

datatype SQLDatabase = SQLDatabase nat

datatype llm =
  ChatOpenAI (model : string) (temperature : int) (streaming : bool) (verbose : bool)
    (openai_api_key : "string option")

datatype toolkit = SQLDatabaseToolkit llm SQLDatabase

datatype message =
    SystemMessage string
  | HumanMessage string
  | AIMessage string
  | MessagesPlaceholder string

datatype prompt = ChatPromptTemplate (prompt_messages : "message list")

datatype agent =
  AgentExecutor (agent_llm : llm) (agent_db : SQLDatabase) (agent_type : string)
    (agent_verbose : bool) (agent_prompt : prompt)

text \<open>Every call that leaves the module, with its arguments.\<close>

datatype call =
    Construct_SQLDatabase
  | Run SQLDatabase string
  | Construct_ChatOpenAI llm
  | Construct_SQLDatabaseToolkit toolkit
  | Get_dialect toolkit
  | Format_human string ModelInput
  | From_messages "message list"
  | Create_sql_agent agent
  | Invoke agent string

datatype level = INFO | ERROR

datatype log_record = LogRecord (record_level : level) (record_msg : string) (exc_info : "exn option")

text \<open>
  The state of the process: the class attribute holding the singleton connection, the
  connections constructed so far, the records handed to \<^verbatim>\<open>logging\<close>, and the history
  of calls made to the collaborators.
\<close>

record world =
  singleton_instance :: "SQLDatabase option"
  connections :: "SQLDatabase list"
  log_records :: "log_record list"
  calls :: "call list"

text \<open>
  The collaborators are outside the repository. They are oracles over the history of
  calls: whether a call raises, and what it returns when it does not.
\<close>

record env =
  os_getenv :: "string \<Rightarrow> string option"
  str_of :: "ModelInput \<Rightarrow> string"
  raises :: "call list \<Rightarrow> call \<Rightarrow> exn option"
  run_result :: "call list \<Rightarrow> SQLDatabase \<Rightarrow> string \<Rightarrow> string"
  dialect_result :: "call list \<Rightarrow> toolkit \<Rightarrow> string"
  invoke_result :: "call list \<Rightarrow> agent \<Rightarrow> string \<Rightarrow> (string \<rightharpoonup> string)"

type_synonym 'a action = "world \<Rightarrow> (exn + 'a) \<times> world"

definition initial_world :: world where
  "initial_world = \<lparr>singleton_instance = None, connections = [], log_records = [], calls = []\<rparr>"

section \<open>Effects\<close>

definition return :: "'a \<Rightarrow> 'a action" where
  "return v w = (Inr v, w)"

definition and_then :: "'a action \<Rightarrow> ('a \<Rightarrow> 'b action) \<Rightarrow> 'b action" where
  "and_then m f w = (case m w of (Inl e, w') \<Rightarrow> (Inl e, w') | (Inr v, w') \<Rightarrow> f v w')"

text \<open>A call to a collaborator is recorded; it raises or returns as the oracles say.\<close>

definition external :: "env \<Rightarrow> call \<Rightarrow> (call list \<Rightarrow> 'a) \<Rightarrow> 'a action" where
  "external env c v w =
     ((case raises env (calls w) c of Some e \<Rightarrow> Inl e | None \<Rightarrow> Inr (v (calls w))),
      w\<lparr>calls := calls w @ [c]\<rparr>)"

definition logging_info :: "string \<Rightarrow> world \<Rightarrow> world" where
  "logging_info msg w = w\<lparr>log_records := log_records w @ [LogRecord INFO msg None]\<rparr>"

text \<open>\<^verbatim>\<open>logging.error(msg, exc_info=True)\<close> inside a handler of exception \<open>e\<close>.\<close>

definition logging_error :: "string \<Rightarrow> exn \<Rightarrow> world \<Rightarrow> world" where
  "logging_error msg e w = w\<lparr>log_records := log_records w @ [LogRecord ERROR msg (Some e)]\<rparr>"

text \<open>\<^verbatim>\<open>d[k]\<close> on a dictionary.\<close>

definition getitem :: "(string \<rightharpoonup> 'v) \<Rightarrow> string \<Rightarrow> 'v action" where
  "getitem d k w = (case d k of None \<Rightarrow> (Inl (KeyError k), w) | Some v \<Rightarrow> (Inr v, w))"

text \<open>\<^verbatim>\<open>s.startswith(p)\<close> and \<^verbatim>\<open>p in s\<close> on strings.\<close>

fun startswith :: "string \<Rightarrow> string \<Rightarrow> bool" where
  "startswith s [] = True"
| "startswith [] (p # ps) = False"
| "startswith (c # cs) (p # ps) = (c = p \<and> startswith cs ps)"

fun contains :: "string \<Rightarrow> string \<Rightarrow> bool" where
  "contains [] p = (p = [])"
| "contains (c # cs) p = (startswith (c # cs) p \<or> contains cs p)"

section \<open>The database accessor\<close>

text \<open>
  Modelled from the spec: \<^verbatim>\<open>SingletonSQLDatabase.get_instance\<close> of module
  \<^verbatim>\<open>database\<close>, which is not among the sources. It returns the process-wide
  connection, constructing it on the first call and returning the same instance
  thereafter; when construction fails the caller observes the failure and nothing is
  stored, so the next call constructs again.
\<close>

definition get_instance :: "env \<Rightarrow> SQLDatabase action" where
  "get_instance env w =
     (case singleton_instance w of
        Some db \<Rightarrow> (Inr db, w)
      | None \<Rightarrow>
          (case external env Construct_SQLDatabase (\<lambda>h. SQLDatabase (length (connections w))) w of
             (Inl e, w') \<Rightarrow> (Inl e, w')
           | (Inr db, w') \<Rightarrow>
               (Inr db, w'\<lparr>singleton_instance := Some db, connections := connections w' @ [db]\<rparr>)))"

definition db_run :: "env \<Rightarrow> SQLDatabase \<Rightarrow> string \<Rightarrow> string action" where
  "db_run env db sql = external env (Run db sql) (\<lambda>h. run_result env h db sql)"

section \<open>The connection keeper\<close>

text \<open>The body of the \<^verbatim>\<open>try\<close> block of the job.\<close>

definition keep_connection_alive_body :: "env \<Rightarrow> unit action" where
  "keep_connection_alive_body env =
     and_then (get_instance env) (\<lambda>db.
     and_then (db_run env db ''SELECT 1'') (\<lambda>_ w.
     (Inr (), logging_info ''Database connection kept alive.'' w)))"

definition keep_connection_alive :: "env \<Rightarrow> unit action" where
  "keep_connection_alive env w =
     (case keep_connection_alive_body env w of
        (Inr u, w') \<Rightarrow> (Inr u, w')
      | (Inl e, w') \<Rightarrow> (Inr (), logging_error ''Error in keep_connection_alive:'' e w'))"

text \<open>
  The job registered with the scheduler,
  \<^verbatim>\<open>scheduler.add_job(keep_connection_alive, 'interval', seconds=999999)\<close>, and the
  comment written above that line.
\<close>

datatype job_func = Keep_connection_alive

record job =
  func :: job_func
  trigger :: string
  seconds :: nat

definition scheduler_jobs :: "job list" where
  "scheduler_jobs = [\<lparr>func = Keep_connection_alive, trigger = ''interval'', seconds = 999999\<rparr>]"

definition scheduler_comment :: string where
  "scheduler_comment = ''Schedule the keep_connection_alive task to run every 10 seconds''"

text \<open>
  The scheduler fires the job once per interval. A firing that let an exception escape
  would end the loop with that exception.
\<close>

fun scheduler_loop :: "env \<Rightarrow> nat \<Rightarrow> unit action" where
  "scheduler_loop env 0 w = (Inr (), w)"
| "scheduler_loop env (Suc n) w =
     (case keep_connection_alive env w of
        (Inl e, w') \<Rightarrow> (Inl e, w')
      | (Inr _, w') \<Rightarrow> scheduler_loop env n w')"

section \<open>The query handler\<close>

definition get_db_connection :: "env \<Rightarrow> SQLDatabase action" where
  "get_db_connection env = and_then (get_instance env) (\<lambda>db. return db)"

text \<open>The two instruction blocks, line by line as the triple-quoted literals have them.\<close>

definition prefix :: string where
  \<open>prefix = concat
   [''\<newline>'',
    ''        You are an advanced SQL database assistant specializing in answering user queries by interacting with the `Vw_Ai_Tbl_PO_PurchaseOrders_Invoices_Details` table in the `Common` schema.\<newline>'',
    ''        ### Handling General Queries:\<newline>'',
    ''        - If the query is a general greeting (e.g., "Hi", "Hello", "How are you?"), respond with a polite acknowledgment:\<newline>'',
    ''          - Example: "Hello! How can I assist you today?"\<newline>'',
    ''        - For unrelated or unclear questions, politely guide the user back to database-specific queries.\<newline>'',
    ''          - Example: "I'm here to assist with database-related queries. How can I help?"\<newline>'',
    ''\<newline>'',
    ''        ### Responsibilities:\<newline>'',
    ''        1. Provide **precise** and **contextually relevant** answers strictly based on the specified table and schema.\<newline>'',
    ''        2. Ensure **query normalization and standardization** to deliver consistent and meaningful results for similar questions.\<newline>'',
    ''        3. Leverage response history to avoid redundant queries, optimizing efficiency and user satisfaction.\<newline>'',
    ''        \<newline>'',
    ''        ### Query Normalization Guidelines:\<newline>'',
    ''        - **Input Transformation**: \<newline>'',
    ''        1.Convert all input text to lowercase for case-insensitive handling.\<newline>'',
    ''        2.Replace punctuation characters (e.g., -, _, ,, .) with spaces for better uniformity.\<newline>'',
    ''        3.Remove leading and trailing whitespaces; collapse multiple spaces into a single space.\<newline>'',
    ''        - **String Functions**:\<newline>'',
    ''        1.Use SQL string functions like `LOWER()`, `TRIM()`, `REPLACE()`, and fuzzy matching (`LIKE`, `LEVENSHTEIN()`, `SOUNDEX`) to account for minor spelling errors or variations.\<newline>'',
    ''        - **Case Mismatch Handling**:\<newline>'',
    ''        1.If the data in the database is stored in a specific case (e.g., uppercase), ensure that both the input and the database column are transformed to the same case during processing.\<newline>'',
    ''        - **For consistent matching**: \<newline>'',
    ''        1.Normalize input to match the stored case (e.g., UPPER() for uppercase or LOWER() for lowercase).\<newline>'',
    ''        2.Apply the same transformation on both sides of the comparison.\<newline>'',
    ''        3.Use case-insensitive comparisons (e.g., ILIKE for PostgreSQL, collations in MySQL).\<newline>'',
    ''        ### SQL Query Construction:\<newline>'',
    ''        1. Ensure the query adheres to the **{dialect} dialect** syntax.\<newline>'',
    ''        2. Use **specific columns** in the SELECT clause for precision; avoid `SELECT *`.\<newline>'',
    ''        3. Apply **LIMIT {top_k}** unless the user explicitly specifies a different limit in their query. The value of `top_k` is dynamically set to **30** by default for this session, ensuring the response includes at most 30 results unless overridden by user input.\<newline>'',
    ''        - If no explicit limit is mentioned in the query, default to **LIMIT {top_k}**, where `top_k=30` for this session.\<newline>'',
    ''        - If the user explicitly specifies a `LIMIT` value, override the default `top_k` and use the user's provided value.\<newline>'',
    ''        - Ensure every SQL query includes a `LIMIT` clause, either with the default `top_k` or as explicitly stated by the user.\<newline>'',
    ''        - Priority for `LIMIT`:\<newline>'',
    ''          1. Explicit value provided by the user.\<newline>'',
    ''          2. Default value set to `top_k=30` for this session.\<newline>'',
    ''        4. Order results by **relevant columns** for clarity (e.g., `ApprovedDate DESC` for recent approvals).\<newline>'',
    ''        5. Validate query syntax before execution to ensure success and eliminate errors.\<newline>'',
    ''        6. Incorporate conditions for **filtering by user intent** and domain-specific logic (e.g., fetching purchase orders for a particular `VesselName` or `SMC`).\<newline>'',
    ''        7. When queried regarding **unique vendors**, the unique vendors are supposed to be calculated based on  **VENDOREMAIL**\<newline>'',
    ''        8. Use the **PO_USD_VALUE** column for the questions regarding the purchase.\<newline>'',
    ''        ### Rules of Engagement:\<newline>'',
    ''        - Do not perform Data Manipulation Language (DML) operations such as `INSERT`, `UPDATE`, or `DELETE`.\<newline>'',
    ''        - Use **Markdown format** for presenting results:\<newline>'',
    ''          - Include bordered tables for tabular data for better readability.\<newline>'',
    ''        - If the query is unrelated to the database or cannot be addressed, respond with:\<newline>'',
    ''          *"I'm unable to provide an answer for that. This information is not available."*\<newline>'',
    ''        - Handle ambiguous questions by:\<newline>'',
    ''          1. Politely clarifying the user's intent.\<newline>'',
    ''          2. Assuming the most logical interpretation when clarification isn't feasible.\<newline>'',
    ''        - **Tone and Style**:\<newline>'',
    ''          - Be professional, concise, and courteous in responses.\<newline>'',
    ''          - Avoid database-specific jargon unless directly relevant.\<newline>'',
    ''          - Use the following metadata {column_metadata} and {Metadata_Groupings}\<newline>'',
    ''        \<newline>'',
    ''        Your ultimate goal is to ensure clarity, accuracy, and user satisfaction while adhering strictly to data access and usage guidelines.\<newline>'',
    ''\<newline>'',
    ''\<newline>'',
    ''        '']\<close>

definition suffix :: string where
  \<open>suffix = concat
   [''\<newline>'',
    ''        If asked about the database structure, table design, or unavailable data, respond politely:\<newline>'',
    ''        *"I can answer questions from this database but cannot provide information about its structure or column names. Let me assist you with the data instead."*\<newline>'',
    ''        \<newline>'',
    ''        ### Additional Guidelines:\<newline>'',
    ''        1. Always validate queries against user intent:\<newline>'',
    ''           - Prioritize **relevance and accuracy**.\<newline>'',
    ''           - Use domain-specific filtering for improved results (e.g., filtering by `pocategory_id` for purchase order categories).\<newline>'',
    ''        2. Incorporate prompt optimization techniques:\<newline>'',
    ''           - Break down **complex questions** into smaller SQL components to ensure accuracy.\<newline>'',
    ''           - Apply **logical conditions** (e.g., combining multiple filters using `AND` or `OR`) for precise results.\<newline>'',
    ''        3. Handle ambiguity:\<newline>'',
    ''           - Clarify the query if needed.\<newline>'',
    ''           - Make reasonable assumptions based on the schema and metadata.\<newline>'',
    ''        4. Optimize performance:\<newline>'',
    ''           - Use indexed columns in filtering conditions to speed up queries.\<newline>'',
    ''           - Aggregate results when large datasets are involved (e.g., using `SUM()`, `AVG()`, `GROUP BY`).\<newline>'',
    ''        \<newline>'',
    ''        5. Present answers effectively:\<newline>'',
    ''           - Use **Markdown** tables with proper column headers and alignments.\<newline>'',
    ''           - Provide **concise summaries** when large datasets are returned.\<newline>'',
    ''\<newline>'',
    ''        6. For handling big result data:\<newline>'',
    ''           - The result is too large to display. Please refine your query or use filters to reduce the result size to show the `top ten` results only.\<newline>'',
    ''\<newline>'',
    ''        '']\<close>

text \<open>
  The body of the \<^verbatim>\<open>try\<close> block. The two metadata texts bound at the top of the block
  are read by no later statement; like \<open>dialect\<close> and \<open>top_k\<close> they are locals that
  nothing uses.
\<close>

definition handle_query_body :: "env \<Rightarrow> ModelInput \<Rightarrow> SQLDatabase \<Rightarrow> (string \<rightharpoonup> string) action" where
  "handle_query_body env userinput db =
     and_then (external env
        (Construct_ChatOpenAI (ChatOpenAI ''gpt-4o'' 0 True False (os_getenv env ''openai_api_key'')))
        (\<lambda>h. ChatOpenAI ''gpt-4o'' 0 True False (os_getenv env ''openai_api_key''))) (\<lambda>llm.
     and_then (external env (Construct_SQLDatabaseToolkit (SQLDatabaseToolkit llm db))
        (\<lambda>h. SQLDatabaseToolkit llm db)) (\<lambda>toolkit.
     and_then (external env (Get_dialect toolkit) (\<lambda>h. dialect_result env h toolkit)) (\<lambda>dialect.
     let top_k = (10 :: int) in
     and_then (external env (Format_human ''{input}'' userinput)
        (\<lambda>h. HumanMessage (str_of env userinput))) (\<lambda>human_message.
     let messages =
       [SystemMessage prefix,
        human_message,
        AIMessage suffix,
        MessagesPlaceholder ''agent_scratchpad''] in
     and_then (external env (From_messages messages) (\<lambda>h. ChatPromptTemplate messages)) (\<lambda>prompt.
     and_then (external env (Create_sql_agent (AgentExecutor llm db ''openai-tools'' True prompt))
        (\<lambda>h. AgentExecutor llm db ''openai-tools'' True prompt)) (\<lambda>agent_executor.
     and_then (external env (Invoke agent_executor (''Now answer this query: '' @ str_of env userinput))
        (\<lambda>h. invoke_result env h agent_executor (''Now answer this query: '' @ str_of env userinput)))
        (\<lambda>result.
     and_then (getitem result ''output'') (\<lambda>response.
     return [''response'' \<mapsto> response]))))))))"

definition handle_query :: "env \<Rightarrow> ModelInput \<Rightarrow> SQLDatabase \<Rightarrow> (string \<rightharpoonup> string) action" where
  "handle_query env userinput db w =
     (case handle_query_body env userinput db w of
        (Inr r, w') \<Rightarrow> (Inr r, w')
      | (Inl e, w') \<Rightarrow>
          (Inl (HTTPException 500 ''An error occurred while processing the request.''),
           logging_error ''Error handling query:'' e w'))"

text \<open>
  The route \<^verbatim>\<open>POST /query/\<close>: the framework resolves the dependency
  \<^verbatim>\<open>Depends(get_db_connection)\<close> and then calls the handler with its value.
\<close>

definition post_query :: "env \<Rightarrow> ModelInput \<Rightarrow> (string \<rightharpoonup> string) action" where
  "post_query env userinput w =
     (case get_db_connection env w of
        (Inl e, w') \<Rightarrow> (Inl e, w')
      | (Inr db, w') \<Rightarrow> handle_query env userinput db w')"

definition read_root :: "string \<rightharpoonup> string" where
  "read_root = [''message'' \<mapsto> ''Welcome to my FastAPI app!'']"

section \<open>The process\<close>

text \<open>
  What happens to the process after start-up: requests to \<^verbatim>\<open>POST /query/\<close> and
  firings of the keep-alive job, one after the other.
\<close>

datatype event = Query ModelInput | Keep_alive

fun step :: "env \<Rightarrow> event \<Rightarrow> world \<Rightarrow> world" where
  "step env (Query userinput) w = snd (post_query env userinput w)"
| "step env Keep_alive w = snd (keep_connection_alive env w)"

fun process :: "env \<Rightarrow> event list \<Rightarrow> world \<Rightarrow> world" where
  "process env [] w = w"
| "process env (ev # evs) w = process env evs (step env ev w)"


section \<open>Vocabulary of the statements\<close>

text \<open>
  The values the handler builds for a request, and the calls it makes, in order. They
  are read off \<open>handle_query_body\<close>; lemma \<open>handle_query_body_attempt\<close> proves that
  the body makes exactly these calls.
\<close>

definition query_llm :: "env \<Rightarrow> llm" where
  "query_llm env = ChatOpenAI ''gpt-4o'' 0 True False (os_getenv env ''openai_api_key'')"

definition query_messages :: "env \<Rightarrow> ModelInput \<Rightarrow> message list" where
  "query_messages env userinput =
     [SystemMessage prefix, HumanMessage (str_of env userinput), AIMessage suffix,
      MessagesPlaceholder ''agent_scratchpad'']"

definition query_agent :: "env \<Rightarrow> ModelInput \<Rightarrow> SQLDatabase \<Rightarrow> agent" where
  "query_agent env userinput db =
     AgentExecutor (query_llm env) db ''openai-tools'' True (ChatPromptTemplate (query_messages env userinput))"

definition query_text :: "env \<Rightarrow> ModelInput \<Rightarrow> string" where
  "query_text env userinput = ''Now answer this query: '' @ str_of env userinput"

definition query_calls :: "env \<Rightarrow> ModelInput \<Rightarrow> SQLDatabase \<Rightarrow> call list" where
  "query_calls env userinput db =
     [Construct_ChatOpenAI (query_llm env),
      Construct_SQLDatabaseToolkit (SQLDatabaseToolkit (query_llm env) db),
      Get_dialect (SQLDatabaseToolkit (query_llm env) db),
      Format_human ''{input}'' userinput,
      From_messages (query_messages env userinput),
      Create_sql_agent (query_agent env userinput db),
      Invoke (query_agent env userinput db) (query_text env userinput)]"

fun attempt :: "env \<Rightarrow> call list \<Rightarrow> world \<Rightarrow> exn option \<times> world" where
  "attempt env [] w = (None, w)"
| "attempt env (c # cs) w =
     (case raises env (calls w) c of
        Some e \<Rightarrow> (Some e, w\<lparr>calls := calls w @ [c]\<rparr>)
      | None \<Rightarrow> attempt env cs (w\<lparr>calls := calls w @ [c]\<rparr>))"

definition example_env :: env where
  "example_env =
     \<lparr>os_getenv = (\<lambda>k. None),
      str_of = userinput_text,
      raises = (\<lambda>h c. None),
      run_result = (\<lambda>h db sql. ''[(1,)]''),
      dialect_result = (\<lambda>h t. ''mssql''),
      invoke_result = (\<lambda>h a t. [''input'' \<mapsto> t, ''output'' \<mapsto> ''There are 3 vendors.''])\<rparr>"

definition timeout_env :: env where
  "timeout_env =
     example_env\<lparr>raises := (\<lambda>h c. case c of Invoke a t \<Rightarrow> Some (Error ''timeout'') | _ \<Rightarrow> None)\<rparr>"

definition unreachable_env :: env where
  "unreachable_env =
     example_env\<lparr>raises :=
       (\<lambda>h c. if c = Construct_SQLDatabase then Some (Error ''connection refused'') else None)\<rparr>"

text \<open>The connections a call is made on.\<close>

fun call_dbs :: "call \<Rightarrow> SQLDatabase list" where
  "call_dbs Construct_SQLDatabase = []"
| "call_dbs (Run db sql) = [db]"
| "call_dbs (Construct_ChatOpenAI l) = []"
| "call_dbs (Construct_SQLDatabaseToolkit (SQLDatabaseToolkit l db)) = [db]"
| "call_dbs (Get_dialect (SQLDatabaseToolkit l db)) = [db]"
| "call_dbs (Format_human t u) = []"
| "call_dbs (From_messages ms) = []"
| "call_dbs (Create_sql_agent a) = [agent_db a]"
| "call_dbs (Invoke a t) = [agent_db a]"

text \<open>
  The state of the accessor is consistent: the connections constructed so far are the
  stored instance and nothing else, and every call on a connection is on one of them.
\<close>

definition singleton_inv :: "world \<Rightarrow> bool" where
  "singleton_inv w =
     (connections w = (case singleton_instance w of None \<Rightarrow> [] | Some db \<Rightarrow> [db])
      \<and> list_all (\<lambda>c. list_all (\<lambda>db. db \<in> set (connections w)) (call_dbs c)) (calls w))"


section \<open>The query normalization policy\<close>

text \<open>
  Modelled from the spec: the normalization transformation of the policy (spec 4.3).
  The repository holds it only as instructions to the agent, in the block
  \<open>prefix\<close> under the heading \<^verbatim>\<open>Query Normalization Guidelines\<close>, and contains no
  code for it. The steps, in the order the spec gives them: case-fold the text, replace
  each character of a fixed set of punctuation characters by a space, collapse every run
  of whitespace to one space, trim leading and trailing whitespace. The set of
  punctuation characters is a parameter; case folding is that of the ASCII letters.
\<close>

definition lower_char :: "char \<Rightarrow> char" where
  "lower_char c =
     (case map_of (zip ''ABCDEFGHIJKLMNOPQRSTUVWXYZ'' ''abcdefghijklmnopqrstuvwxyz'') c of
        Some d \<Rightarrow> d
      | None \<Rightarrow> c)"

definition is_space :: "char \<Rightarrow> bool" where
  "is_space c = (c \<in> set [CHR '' '', CHR 0x09, CHR 0x0A, CHR 0x0B, CHR 0x0C, CHR 0x0D])"

definition lower :: "string \<Rightarrow> string" where
  "lower s = map lower_char s"

definition replace_punctuation :: "string \<Rightarrow> string \<Rightarrow> string" where
  "replace_punctuation ps s = map (\<lambda>c. if c \<in> set ps then CHR '' '' else c) s"

function collapse_whitespace :: "string \<Rightarrow> string" where
  "collapse_whitespace [] = []"
| "collapse_whitespace (c # cs) =
     (if is_space c then CHR '' '' # collapse_whitespace (dropWhile is_space cs)
      else c # collapse_whitespace cs)"
  by pat_completeness auto
termination
  by (relation "measure length") (auto simp add: length_dropWhile_le less_Suc_eq_le)

definition lstrip :: "string \<Rightarrow> string" where
  "lstrip s = dropWhile is_space s"

fun rstrip :: "string \<Rightarrow> string" where
  "rstrip [] = []"
| "rstrip (c # cs) =
     (case rstrip cs of
        [] \<Rightarrow> (if is_space c then [] else [c])
      | d # ds \<Rightarrow> c # d # ds)"

definition strip :: "string \<Rightarrow> string" where
  "strip s = rstrip (lstrip s)"

definition normalize_query :: "string \<Rightarrow> string \<Rightarrow> string" where
  "normalize_query ps s = strip (collapse_whitespace (replace_punctuation ps (lower s)))"

text \<open>The shape of a normalized string: its whitespace is single spaces between words.\<close>

fun squeezed :: "string \<Rightarrow> bool" where
  "squeezed [] = True"
| "squeezed [c] = (is_space c \<longrightarrow> c = CHR '' '')"
| "squeezed (c # d # cs) = ((is_space c \<longrightarrow> c = CHR '' '' \<and> \<not> is_space d) \<and> squeezed (d # cs))"

definition trimmed :: "string \<Rightarrow> bool" where
  "trimmed s = (s = [] \<or> (\<not> is_space (hd s) \<and> \<not> is_space (last s)))"

section \<open>The calls of the handler\<close>

lemma and_then_external:
  "and_then (external env c v) f w =
     (case raises env (calls w) c of
        Some e \<Rightarrow> (Inl e, w\<lparr>calls := calls w @ [c]\<rparr>)
      | None \<Rightarrow> f (v (calls w)) (w\<lparr>calls := calls w @ [c]\<rparr>))"
  by (simp add: and_then_def external_def split: option.splits)

lemma and_then_getitem:
  "and_then (getitem d k) f w =
     (case d k of None \<Rightarrow> (Inl (KeyError k), w) | Some v \<Rightarrow> f v w)"
  by (simp add: and_then_def getitem_def split: option.splits)

lemma handle_query_body_attempt:
  "handle_query_body env userinput db w =
     (case attempt env (query_calls env userinput db) w of
        (Some e, w') \<Rightarrow> (Inl e, w')
      | (None, w') \<Rightarrow>
          (case invoke_result env (calls w @ take 6 (query_calls env userinput db))
                  (query_agent env userinput db) (query_text env userinput) ''output'' of
             None \<Rightarrow> (Inl (KeyError ''output''), w')
           | Some out \<Rightarrow> (Inr [''response'' \<mapsto> out], w')))"
  by (simp add: handle_query_body_def query_calls_def query_agent_def query_llm_def
      query_messages_def query_text_def and_then_external and_then_getitem return_def Let_def
      split: option.splits)

lemma attempt_frame:
  "singleton_instance (snd (attempt env cs w)) = singleton_instance w
   \<and> connections (snd (attempt env cs w)) = connections w
   \<and> log_records (snd (attempt env cs w)) = log_records w"
  by (induction cs arbitrary: w) (auto split: option.splits)

lemma attempt_calls:
  "\<exists>n \<le> length cs. calls (snd (attempt env cs w)) = calls w @ take n cs"
proof (induction cs arbitrary: w)
  case Nil
  then show ?case by simp
next
  case (Cons c cs)
  show ?case
  proof (cases "raises env (calls w) c")
    case None
    from Cons.IH[of "w\<lparr>calls := calls w @ [c]\<rparr>"] obtain n where
      "n \<le> length cs" "calls (snd (attempt env cs (w\<lparr>calls := calls w @ [c]\<rparr>))) = (calls w @ [c]) @ take n cs"
      by auto
    then have "Suc n \<le> length (c # cs) \<and> calls (snd (attempt env (c # cs) w)) = calls w @ take (Suc n) (c # cs)"
      using None by simp
    then show ?thesis by blast
  next
    case (Some e)
    then have "Suc 0 \<le> length (c # cs) \<and> calls (snd (attempt env (c # cs) w)) = calls w @ take (Suc 0) (c # cs)"
      by simp
    then show ?thesis by blast
  qed
qed

lemma attempt_None:
  "fst (attempt env cs w) = None \<Longrightarrow> snd (attempt env cs w) = w\<lparr>calls := calls w @ cs\<rparr>"
  by (induction cs arbitrary: w) (auto split: option.splits)

lemma attempt_raise_at:
  "i < length cs \<Longrightarrow> \<forall>j<i. raises env (calls w @ take j cs) (cs ! j) = None \<Longrightarrow>
   raises env (calls w @ take i cs) (cs ! i) = Some e \<Longrightarrow>
   attempt env cs w = (Some e, w\<lparr>calls := calls w @ take (Suc i) cs\<rparr>)"
proof (induction cs arbitrary: w i)
  case Nil
  then show ?case by simp
next
  case (Cons c cs)
  show ?case
  proof (cases i)
    case 0
    with Cons.prems show ?thesis by simp
  next
    case (Suc k)
    from Cons.prems(2) Suc have c_ok: "raises env (calls w) c = None"
      by (metis append_Nil2 nth_Cons_0 take_0 zero_less_Suc)
    let ?w = "w\<lparr>calls := calls w @ [c]\<rparr>"
    have k: "k < length cs" using Cons.prems(1) Suc by simp
    have before: "\<forall>j<k. raises env (calls ?w @ take j cs) (cs ! j) = None"
    proof (intro allI impI)
      fix j assume "j < k"
      then have "Suc j < i" using Suc by simp
      with Cons.prems(2) have "raises env (calls w @ take (Suc j) (c # cs)) ((c # cs) ! Suc j) = None"
        by blast
      then show "raises env (calls ?w @ take j cs) (cs ! j) = None" by simp
    qed
    have at: "raises env (calls ?w @ take k cs) (cs ! k) = Some e"
      using Cons.prems(3) Suc by simp
    from Cons.IH[OF k before at] c_ok Suc show ?thesis by simp
  qed
qed

lemma attempt_all_ok:
  "\<forall>j<length cs. raises env (calls w @ take j cs) (cs ! j) = None \<Longrightarrow>
   attempt env cs w = (None, w\<lparr>calls := calls w @ cs\<rparr>)"
proof (induction cs arbitrary: w)
  case Nil
  then show ?case by simp
next
  case (Cons c cs)
  from Cons.prems have c_ok: "raises env (calls w) c = None"
    by (metis append_Nil2 length_greater_0_conv list.distinct(1) nth_Cons_0 take_0)
  let ?w = "w\<lparr>calls := calls w @ [c]\<rparr>"
  have "\<forall>j<length cs. raises env (calls ?w @ take j cs) (cs ! j) = None"
  proof (intro allI impI)
    fix j assume "j < length cs"
    then have "Suc j < length (c # cs)" by simp
    with Cons.prems have "raises env (calls w @ take (Suc j) (c # cs)) ((c # cs) ! Suc j) = None"
      by blast
    then show "raises env (calls ?w @ take j cs) (cs ! j) = None" by simp
  qed
  from Cons.IH[OF this] c_ok show ?case by simp
qed

section \<open>Substrings of the instruction blocks\<close>

lemma startswith_iff: "startswith s p \<longleftrightarrow> (\<exists>b. s = p @ b)"
  by (induction s p rule: startswith.induct) auto

lemma contains_iff: "contains s p \<longleftrightarrow> (\<exists>a b. s = a @ p @ b)"
proof (induction s)
  case Nil
  then show ?case by auto
next
  case (Cons c cs)
  show ?case
  proof
    assume "contains (c # cs) p"
    then consider "startswith (c # cs) p" | "contains cs p" by auto
    then show "\<exists>a b. c # cs = a @ p @ b"
    proof cases
      case 1
      then obtain b where "c # cs = p @ b" by (auto simp: startswith_iff)
      then have "c # cs = [] @ p @ b" by simp
      then show ?thesis by blast
    next
      case 2
      then obtain a b where "cs = a @ p @ b" using Cons.IH by blast
      then have "c # cs = (c # a) @ p @ b" by simp
      then show ?thesis by blast
    qed
  next
    assume "\<exists>a b. c # cs = a @ p @ b"
    then obtain a b where ab: "c # cs = a @ p @ b" by blast
    show "contains (c # cs) p"
    proof (cases a)
      case Nil
      with ab have "startswith (c # cs) p" by (auto simp: startswith_iff)
      then show ?thesis by simp
    next
      case (Cons x a')
      with ab have "cs = a' @ p @ b" by simp
      then have "contains cs p" using Cons.IH by blast
      then show ?thesis by simp
    qed
  qed
qed

lemma contains_concat_nth:
  assumes "i < length ls" and "contains (ls ! i) p"
  shows "contains (concat ls) p"
proof -
  from assms(2) obtain a b where ab: "ls ! i = a @ p @ b" by (auto simp: contains_iff)
  have "ls = take i ls @ (ls ! i) # drop (Suc i) ls"
    using assms(1) by (simp add: id_take_nth_drop)
  then have "concat ls = concat (take i ls) @ (ls ! i) @ concat (drop (Suc i) ls)"
    by (metis concat.simps(2) concat_append)
  then have "concat ls = (concat (take i ls) @ a) @ p @ (b @ concat (drop (Suc i) ls))"
    using ab by simp
  then show ?thesis unfolding contains_iff by blast
qed

lemma prefix_dialect: "contains prefix ''{dialect}''"
  unfolding prefix_def by (rule contains_concat_nth[of 27]) simp_all

lemma prefix_top_k: "contains prefix ''{top_k}''"
  unfolding prefix_def by (rule contains_concat_nth[of 29]) simp_all

lemma prefix_column_metadata: "contains prefix ''{column_metadata}''"
  unfolding prefix_def by (rule contains_concat_nth[of 53]) simp_all

lemma prefix_Metadata_Groupings: "contains prefix ''{Metadata_Groupings}''"
  unfolding prefix_def by (rule contains_concat_nth[of 53]) simp_all

text \<open>
  What the first block says about the number of rows: the instructions name 30 as the
  default and give precedence to a limit stated in the question. They are text for the
  agent; no statement of the module computes a limit.
\<close>

lemma prefix_limit_instructions:
  "contains prefix ''default to **LIMIT {top_k}**, where `top_k=30` for this session.''"
  "contains prefix ''override the default `top_k` and use the user's provided value.''"
  unfolding prefix_def
  by (rule contains_concat_nth[of 30], simp, simp, rule contains_concat_nth[of 31], simp, simp)

section \<open>What the handler changes\<close>

lemma handle_query_body_snd:
  "snd (handle_query_body env userinput db w) = snd (attempt env (query_calls env userinput db) w)"
  by (cases "attempt env (query_calls env userinput db) w")
     (simp add: handle_query_body_attempt split: option.splits)

lemma handle_query_body_calls:
  "\<exists>n \<le> 7. calls (snd (handle_query_body env userinput db w))
     = calls w @ take n (query_calls env userinput db)"
proof -
  obtain n where n: "n \<le> length (query_calls env userinput db)"
    "calls (snd (attempt env (query_calls env userinput db) w)) = calls w @ take n (query_calls env userinput db)"
    using attempt_calls by blast
  have "length (query_calls env userinput db) = 7" by (simp add: query_calls_def)
  moreover have "calls (snd (handle_query_body env userinput db w))
      = calls (snd (attempt env (query_calls env userinput db) w))"
    by (simp add: handle_query_body_snd)
  ultimately show ?thesis using n by auto
qed

lemma handle_query_body_frame:
  "singleton_instance (snd (handle_query_body env userinput db w)) = singleton_instance w
   \<and> connections (snd (handle_query_body env userinput db w)) = connections w
   \<and> log_records (snd (handle_query_body env userinput db w)) = log_records w"
  using attempt_frame[of env "query_calls env userinput db" w]
  by (simp add: handle_query_body_snd)

lemma handle_query_alt:
  "handle_query env userinput db w =
     (case fst (handle_query_body env userinput db w) of
        Inr r \<Rightarrow> (Inr r, snd (handle_query_body env userinput db w))
      | Inl e \<Rightarrow>
          (Inl (HTTPException 500 ''An error occurred while processing the request.''),
           logging_error ''Error handling query:'' e (snd (handle_query_body env userinput db w))))"
  by (simp add: handle_query_def split: prod.splits sum.splits)

lemma handle_query_calls:
  "calls (snd (handle_query env userinput db w)) = calls (snd (handle_query_body env userinput db w))"
  by (cases "fst (handle_query_body env userinput db w)")
     (simp_all add: handle_query_alt logging_error_def)

lemma handle_query_frame:
  "singleton_instance (snd (handle_query env userinput db w)) = singleton_instance w
   \<and> connections (snd (handle_query env userinput db w)) = connections w"
  using handle_query_body_frame[of env userinput db w]
  by (cases "fst (handle_query_body env userinput db w)")
     (simp_all add: handle_query_alt logging_error_def)

lemma new_calls_subset:
  "set (drop (length (calls w)) (calls (snd (handle_query env userinput db w))))
     \<subseteq> set (query_calls env userinput db)"
proof -
  obtain n where "calls (snd (handle_query_body env userinput db w))
     = calls w @ take n (query_calls env userinput db)"
    using handle_query_body_calls by blast
  then show ?thesis by (simp add: handle_query_calls set_take_subset)
qed

lemma example_env_simps:
  "os_getenv example_env k = None"
  "str_of example_env u = userinput_text u"
  "raises example_env h c = None"
  "run_result example_env h db sql = ''[(1,)]''"
  "dialect_result example_env h t = ''mssql''"
  "invoke_result example_env h a txt = [''input'' \<mapsto> txt, ''output'' \<mapsto> ''There are 3 vendors.'']"
  by (simp_all add: example_env_def)

lemma timeout_env_simps:
  "os_getenv timeout_env k = None"
  "str_of timeout_env u = userinput_text u"
  "raises timeout_env h c = (case c of Invoke a t \<Rightarrow> Some (Error ''timeout'') | _ \<Rightarrow> None)"
  by (simp_all add: timeout_env_def example_env_def)

lemma unreachable_env_simps:
  "raises unreachable_env h c =
     (if c = Construct_SQLDatabase then Some (Error ''connection refused'') else None)"
  by (simp_all add: unreachable_env_def example_env_def)

lemma attempt_reaches:
  "k < length cs \<Longrightarrow> \<forall>j<k. raises env (calls w @ take j cs) (cs ! j) = None \<Longrightarrow>
   \<exists>n. k < n \<and> n \<le> length cs \<and> calls (snd (attempt env cs w)) = calls w @ take n cs"
proof (induction cs arbitrary: w k)
  case Nil
  then show ?case by simp
next
  case (Cons c cs)
  let ?w = "w\<lparr>calls := calls w @ [c]\<rparr>"
  show ?case
  proof (cases "raises env (calls w) c")
    case (Some e)
    have "k = 0"
    proof (rule ccontr)
      assume "k \<noteq> 0"
      then have "0 < k" by simp
      with Cons.prems(2) have "raises env (calls w @ take 0 (c # cs)) ((c # cs) ! 0) = None" by blast
      with Some show False by simp
    qed
    moreover have "calls (snd (attempt env (c # cs) w)) = calls w @ take (Suc 0) (c # cs)"
      using Some by simp
    ultimately have "k < Suc 0 \<and> Suc 0 \<le> length (c # cs)
        \<and> calls (snd (attempt env (c # cs) w)) = calls w @ take (Suc 0) (c # cs)" by simp
    then show ?thesis by blast
  next
    case None
    show ?thesis
    proof (cases k)
      case 0
      obtain n where "n \<le> length cs" "calls (snd (attempt env cs ?w)) = calls ?w @ take n cs"
        using attempt_calls by blast
      then have "k < Suc n \<and> Suc n \<le> length (c # cs)
          \<and> calls (snd (attempt env (c # cs) w)) = calls w @ take (Suc n) (c # cs)"
        using None 0 by simp
      then show ?thesis by blast
    next
      case (Suc k')
      have k': "k' < length cs" using Cons.prems(1) Suc by simp
      have before: "\<forall>j<k'. raises env (calls ?w @ take j cs) (cs ! j) = None"
      proof (intro allI impI)
        fix j assume "j < k'"
        then have "Suc j < k" using Suc by simp
        with Cons.prems(2) have "raises env (calls w @ take (Suc j) (c # cs)) ((c # cs) ! Suc j) = None"
          by blast
        then show "raises env (calls ?w @ take j cs) (cs ! j) = None" by simp
      qed
      from Cons.IH[OF k' before] obtain n where
        "k' < n" "n \<le> length cs" "calls (snd (attempt env cs ?w)) = calls ?w @ take n cs" by blast
      then have "k < Suc n \<and> Suc n \<le> length (c # cs)
          \<and> calls (snd (attempt env (c # cs) w)) = calls w @ take (Suc n) (c # cs)"
        using None Suc by simp
      then show ?thesis by blast
    qed
  qed
qed

lemma new_calls:
  "\<exists>n \<le> 7. drop (length (calls w)) (calls (snd (handle_query env userinput db w)))
     = take n (query_calls env userinput db)"
proof -
  obtain n where "n \<le> 7" "calls (snd (handle_query_body env userinput db w))
     = calls w @ take n (query_calls env userinput db)"
    using handle_query_body_calls by blast
  then have "n \<le> 7 \<and> drop (length (calls w)) (calls (snd (handle_query env userinput db w)))
     = take n (query_calls env userinput db)"
    by (simp add: handle_query_calls)
  then show ?thesis by blast
qed

lemma new_calls_reach:
  assumes "k < 7"
    and "\<forall>j<k. raises env (calls w @ take j (query_calls env userinput db))
            (query_calls env userinput db ! j) = None"
  shows "query_calls env userinput db ! k
     \<in> set (drop (length (calls w)) (calls (snd (handle_query env userinput db w))))"
proof -
  have len: "length (query_calls env userinput db) = 7" by (simp add: query_calls_def)
  with assms attempt_reaches[of k "query_calls env userinput db" env w] obtain n where
    n: "k < n" "n \<le> 7"
      "calls (snd (attempt env (query_calls env userinput db) w))
         = calls w @ take n (query_calls env userinput db)"
    by auto
  then have "drop (length (calls w)) (calls (snd (handle_query env userinput db w)))
     = take n (query_calls env userinput db)"
    by (simp add: handle_query_calls handle_query_body_snd)
  moreover have "query_calls env userinput db ! k \<in> set (take n (query_calls env userinput db))"
    using n len by (metis in_set_conv_nth length_take min.absorb2 nth_take)
  ultimately show ?thesis by simp
qed

lemma attempt_dialect:
  "attempt (env\<lparr>dialect_result := d\<rparr>) cs w = attempt env cs w"
  by (induction cs arbitrary: w) (simp_all split: option.splits)

lemma query_values_dialect:
  "query_calls (env\<lparr>dialect_result := d\<rparr>) userinput db = query_calls env userinput db"
  "query_agent (env\<lparr>dialect_result := d\<rparr>) userinput db = query_agent env userinput db"
  "query_text (env\<lparr>dialect_result := d\<rparr>) userinput = query_text env userinput"
  "invoke_result (env\<lparr>dialect_result := d\<rparr>) = invoke_result env"
  by (simp_all add: query_calls_def query_agent_def query_llm_def query_messages_def query_text_def)

lemma handle_query_body_dialect:
  "handle_query_body (env\<lparr>dialect_result := d\<rparr>) userinput db w = handle_query_body env userinput db w"
  unfolding handle_query_body_attempt attempt_dialect query_values_dialect by (rule refl)

lemma prefix_role: "contains prefix ''You are an advanced SQL database assistant''"
  unfolding prefix_def by (rule contains_concat_nth[of 1]) simp_all

lemma prefix_responsibilities: "contains prefix ''### Responsibilities:''"
  unfolding prefix_def by (rule contains_concat_nth[of 8]) simp_all

lemma prefix_construction: "contains prefix ''### SQL Query Construction:''"
  unfolding prefix_def by (rule contains_concat_nth[of 26]) simp_all

lemma suffix_fallback: "contains suffix ''If asked about the database structure, table design, or unavailable data, respond politely:''"
  unfolding suffix_def by (rule contains_concat_nth[of 1]) simp_all

lemma suffix_formatting: "contains suffix ''Use **Markdown** tables with proper column headers and alignments.''"
  unfolding suffix_def by (rule contains_concat_nth[of 19]) simp_all

lemma query_calls_nth:
  "query_calls env userinput db ! 4 = From_messages (query_messages env userinput)"
  "query_calls env userinput db ! 5 = Create_sql_agent (query_agent env userinput db)"
  "query_calls env userinput db ! 6 = Invoke (query_agent env userinput db) (query_text env userinput)"
  by (simp_all add: query_calls_def)

lemma query_calls_members:
  "From_messages ms \<in> set (query_calls env userinput db) \<Longrightarrow> ms = query_messages env userinput"
  "Create_sql_agent a \<in> set (query_calls env userinput db) \<Longrightarrow> a = query_agent env userinput db"
  "Invoke a txt \<in> set (query_calls env userinput db) \<Longrightarrow>
     a = query_agent env userinput db \<and> txt = query_text env userinput"
  by (simp_all add: query_calls_def)

lemma example_run_calls:
  "calls (snd (handle_query example_env (ModelInput ''how many vendors?'') (SQLDatabase 0) initial_world))
     = query_calls example_env (ModelInput ''how many vendors?'') (SQLDatabase 0)"
proof -
  have "attempt example_env (query_calls example_env (ModelInput ''how many vendors?'') (SQLDatabase 0))
      initial_world
    = (None, initial_world\<lparr>calls := calls initial_world
         @ query_calls example_env (ModelInput ''how many vendors?'') (SQLDatabase 0)\<rparr>)"
    by (rule attempt_all_ok) (simp add: example_env_simps)
  then show ?thesis
    by (simp add: handle_query_calls handle_query_body_snd initial_world_def)
qed

section \<open>The accessor and its invariant\<close>

lemma get_instance_Some:
  "singleton_instance w = Some db \<Longrightarrow> get_instance env w = (Inr db, w)"
  by (simp add: get_instance_def)

lemma get_instance_raise:
  "singleton_instance w = None \<Longrightarrow> raises env (calls w) Construct_SQLDatabase = Some e \<Longrightarrow>
   get_instance env w = (Inl e, w\<lparr>calls := calls w @ [Construct_SQLDatabase]\<rparr>)"
  by (simp add: get_instance_def external_def)

lemma get_instance_construct:
  "singleton_instance w = None \<Longrightarrow> raises env (calls w) Construct_SQLDatabase = None \<Longrightarrow>
   get_instance env w =
     (Inr (SQLDatabase (length (connections w))),
      w\<lparr>calls := calls w @ [Construct_SQLDatabase],
        singleton_instance := Some (SQLDatabase (length (connections w))),
        connections := connections w @ [SQLDatabase (length (connections w))]\<rparr>)"
  by (simp add: get_instance_def external_def)

lemma get_instance_cases:
  obtains (stored) db where "singleton_instance w = Some db" "get_instance env w = (Inr db, w)"
  | (raised) e where "singleton_instance w = None"
      "get_instance env w = (Inl e, w\<lparr>calls := calls w @ [Construct_SQLDatabase]\<rparr>)"
  | (constructed) "singleton_instance w = None"
      "get_instance env w =
        (Inr (SQLDatabase (length (connections w))),
         w\<lparr>calls := calls w @ [Construct_SQLDatabase],
           singleton_instance := Some (SQLDatabase (length (connections w))),
           connections := connections w @ [SQLDatabase (length (connections w))]\<rparr>)"
proof (cases "singleton_instance w")
  case (Some db)
  then show ?thesis using get_instance_Some stored by blast
next
  case None
  show ?thesis
  proof (cases "raises env (calls w) Construct_SQLDatabase")
    case (Some e)
    with None show ?thesis using get_instance_raise raised by blast
  next
    case no: None
    with None show ?thesis using get_instance_construct constructed by blast
  qed
qed

lemma get_db_connection_eq: "get_db_connection env w = get_instance env w"
  by (cases "get_instance env w" rule: prod.exhaust)
     (auto simp add: get_db_connection_def and_then_def return_def split: sum.splits)

lemma singleton_invI:
  assumes "connections w = (case singleton_instance w of None \<Rightarrow> [] | Some db \<Rightarrow> [db])"
    and "\<And>c db. c \<in> set (calls w) \<Longrightarrow> db \<in> set (call_dbs c) \<Longrightarrow> db \<in> set (connections w)"
  shows "singleton_inv w"
  unfolding singleton_inv_def list_all_iff using assms by blast

lemma singleton_inv_connections:
  "singleton_inv w \<Longrightarrow>
   connections w = (case singleton_instance w of None \<Rightarrow> [] | Some db \<Rightarrow> [db])"
  unfolding singleton_inv_def by blast

lemma singleton_inv_calls:
  "singleton_inv w \<Longrightarrow> c \<in> set (calls w) \<Longrightarrow> db \<in> set (call_dbs c) \<Longrightarrow>
   db \<in> set (connections w)"
  unfolding singleton_inv_def list_all_iff by blast

lemma get_instance_inv:
  assumes "singleton_inv w"
  shows "singleton_inv (snd (get_instance env w))"
proof (cases rule: get_instance_cases[where w = w and env = env])
  case (stored db)
  with assms show ?thesis by simp
next
  case (raised e)
  show ?thesis
  proof (rule singleton_invI)
    show "connections (snd (get_instance env w)) =
      (case singleton_instance (snd (get_instance env w)) of None \<Rightarrow> [] | Some db \<Rightarrow> [db])"
      using raised singleton_inv_connections[OF assms] by simp
  next
    fix c db assume "c \<in> set (calls (snd (get_instance env w)))" "db \<in> set (call_dbs c)"
    then show "db \<in> set (connections (snd (get_instance env w)))"
      using raised singleton_inv_calls[OF assms] by auto
  qed
next
  case constructed
  show ?thesis
  proof (rule singleton_invI)
    show "connections (snd (get_instance env w)) =
      (case singleton_instance (snd (get_instance env w)) of None \<Rightarrow> [] | Some db \<Rightarrow> [db])"
      using constructed singleton_inv_connections[OF assms] by simp
  next
    fix c db assume "c \<in> set (calls (snd (get_instance env w)))" "db \<in> set (call_dbs c)"
    then show "db \<in> set (connections (snd (get_instance env w)))"
      using constructed singleton_inv_calls[OF assms] by auto
  qed
qed

lemma get_instance_result:
  assumes "fst (get_instance env w) = Inr db"
  shows "singleton_instance (snd (get_instance env w)) = Some db"
  using assms by (cases rule: get_instance_cases[where w = w and env = env]) simp_all

lemma get_instance_keeps:
  assumes "singleton_instance w = Some db"
  shows "singleton_instance (snd (get_instance env w)) = Some db"
  using assms by (simp add: get_instance_Some)

lemma query_calls_dbs:
  "c \<in> set (query_calls env userinput db) \<Longrightarrow> db' \<in> set (call_dbs c) \<Longrightarrow> db' = db"
  by (auto simp add: query_calls_def query_agent_def)

lemma handle_query_inv:
  assumes "singleton_inv w" and "singleton_instance w = Some db"
  shows "singleton_inv (snd (handle_query env userinput db w))"
proof (rule singleton_invI)
  have frame: "singleton_instance (snd (handle_query env userinput db w)) = singleton_instance w"
    "connections (snd (handle_query env userinput db w)) = connections w"
    using handle_query_frame[of env userinput db w] by simp_all
  show "connections (snd (handle_query env userinput db w)) =
      (case singleton_instance (snd (handle_query env userinput db w)) of
         None \<Rightarrow> [] | Some db \<Rightarrow> [db])"
    unfolding frame using assms(1) by (rule singleton_inv_connections)
  have db: "db \<in> set (connections w)"
    using singleton_inv_connections[OF assms(1)] assms(2) by simp
  obtain n where n: "calls (snd (handle_query env userinput db w))
      = calls w @ take n (query_calls env userinput db)"
    using handle_query_body_calls handle_query_calls by metis
  fix c db' assume c: "c \<in> set (calls (snd (handle_query env userinput db w)))"
    and db': "db' \<in> set (call_dbs c)"
  from c n consider "c \<in> set (calls w)" | "c \<in> set (take n (query_calls env userinput db))"
    by auto
  then have "db' \<in> set (connections w)"
  proof cases
    case 1
    with db' show ?thesis using singleton_inv_calls[OF assms(1)] by blast
  next
    case 2
    then have "c \<in> set (query_calls env userinput db)" by (rule in_set_takeD)
    with db' have "db' = db" using query_calls_dbs by blast
    with db show ?thesis by simp
  qed
  then show "db' \<in> set (connections (snd (handle_query env userinput db w)))"
    unfolding frame .
qed

lemma post_query_inv:
  assumes "singleton_inv w"
  shows "singleton_inv (snd (post_query env userinput w))"
proof (cases "fst (get_instance env w)")
  case (Inl e)
  then have "snd (post_query env userinput w) = snd (get_instance env w)"
    by (cases "get_instance env w") (simp add: post_query_def get_db_connection_eq)
  then show ?thesis using assms get_instance_inv by simp
next
  case (Inr db)
  then have "snd (post_query env userinput w)
      = snd (handle_query env userinput db (snd (get_instance env w)))"
    by (cases "get_instance env w") (simp add: post_query_def get_db_connection_eq)
  moreover have "singleton_inv (snd (get_instance env w))" using assms by (rule get_instance_inv)
  moreover have "singleton_instance (snd (get_instance env w)) = Some db"
    using Inr by (rule get_instance_result)
  ultimately show ?thesis using handle_query_inv by simp
qed

lemma post_query_keeps:
  assumes "singleton_instance w = Some db"
  shows "singleton_instance (snd (post_query env userinput w)) = Some db"
  using assms handle_query_frame[of env userinput db w]
  by (simp add: post_query_def get_db_connection_eq get_instance_Some)

section \<open>The keeper\<close>

lemma get_instance_log:
  "log_records (snd (get_instance env w)) = log_records w"
  by (cases rule: get_instance_cases[where w = w and env = env]) simp_all

lemma keep_connection_alive_body_cases:
  obtains (no_connection) e where "fst (get_instance env w) = Inl e"
      "keep_connection_alive_body env w = (Inl e, snd (get_instance env w))"
  | (run_raised) db e where "fst (get_instance env w) = Inr db"
      "raises env (calls (snd (get_instance env w))) (Run db ''SELECT 1'') = Some e"
      "keep_connection_alive_body env w =
         (Inl e, (snd (get_instance env w))
            \<lparr>calls := calls (snd (get_instance env w)) @ [Run db ''SELECT 1'']\<rparr>)"
  | (kept_alive) db where "fst (get_instance env w) = Inr db"
      "raises env (calls (snd (get_instance env w))) (Run db ''SELECT 1'') = None"
      "keep_connection_alive_body env w =
         (Inr (), logging_info ''Database connection kept alive.''
            ((snd (get_instance env w))
               \<lparr>calls := calls (snd (get_instance env w)) @ [Run db ''SELECT 1'']\<rparr>))"
proof (cases "get_instance env w")
  case (Pair r w1)
  show ?thesis
  proof (cases r)
    case (Inl e)
    with Pair have "keep_connection_alive_body env w = (Inl e, snd (get_instance env w))"
      by (simp add: keep_connection_alive_body_def and_then_def)
    with Pair Inl show ?thesis using no_connection by simp
  next
    case (Inr db)
    show ?thesis
    proof (cases "raises env (calls w1) (Run db ''SELECT 1'')")
      case None
      with Pair Inr have "keep_connection_alive_body env w =
         (Inr (), logging_info ''Database connection kept alive.''
            (w1\<lparr>calls := calls w1 @ [Run db ''SELECT 1'']\<rparr>))"
        by (simp add: keep_connection_alive_body_def and_then_def db_run_def external_def)
      with Pair Inr None show ?thesis using kept_alive by simp
    next
      case (Some e)
      with Pair Inr have "keep_connection_alive_body env w =
         (Inl e, w1\<lparr>calls := calls w1 @ [Run db ''SELECT 1'']\<rparr>)"
        by (simp add: keep_connection_alive_body_def and_then_def db_run_def external_def)
      with Pair Inr Some show ?thesis using run_raised by simp
    qed
  qed
qed

lemma keep_connection_alive_alt:
  "keep_connection_alive env w =
     (case fst (keep_connection_alive_body env w) of
        Inr u \<Rightarrow> (Inr u, snd (keep_connection_alive_body env w))
      | Inl e \<Rightarrow> (Inr (), logging_error ''Error in keep_connection_alive:'' e
                    (snd (keep_connection_alive_body env w))))"
  by (simp add: keep_connection_alive_def split: prod.splits sum.splits)

lemma keep_connection_alive_returns: "fst (keep_connection_alive env w) = Inr ()"
  by (cases "fst (keep_connection_alive_body env w)") (simp_all add: keep_connection_alive_alt)

lemma keep_connection_alive_body_log:
  "log_records (snd (keep_connection_alive_body env w)) =
     (case fst (keep_connection_alive_body env w) of
        Inl e \<Rightarrow> log_records w
      | Inr u \<Rightarrow> log_records w @ [LogRecord INFO ''Database connection kept alive.'' None])"
  by (cases rule: keep_connection_alive_body_cases[where w = w and env = env])
     (simp_all add: get_instance_log logging_info_def)

lemma keep_connection_alive_log:
  "log_records (snd (keep_connection_alive env w)) =
     log_records w @
       [case fst (keep_connection_alive_body env w) of
          Inl e \<Rightarrow> LogRecord ERROR ''Error in keep_connection_alive:'' (Some e)
        | Inr u \<Rightarrow> LogRecord INFO ''Database connection kept alive.'' None]"
  using keep_connection_alive_body_log[of env w]
  by (cases "fst (keep_connection_alive_body env w)")
     (simp_all add: keep_connection_alive_alt logging_error_def)

lemma keep_connection_alive_state:
  "singleton_instance (snd (keep_connection_alive env w)) = singleton_instance (snd (get_instance env w))
   \<and> connections (snd (keep_connection_alive env w)) = connections (snd (get_instance env w))
   \<and> (\<exists>cs. calls (snd (keep_connection_alive env w)) = calls (snd (get_instance env w)) @ cs
         \<and> (cs = [] \<or> (\<exists>db. fst (get_instance env w) = Inr db \<and> cs = [Run db ''SELECT 1''])))"
  by (cases rule: keep_connection_alive_body_cases[where w = w and env = env])
     (simp_all add: keep_connection_alive_alt logging_error_def logging_info_def)

lemma keep_connection_alive_inv:
  assumes "singleton_inv w"
  shows "singleton_inv (snd (keep_connection_alive env w))"
proof (rule singleton_invI)
  let ?w1 = "snd (get_instance env w)"
  let ?w2 = "snd (keep_connection_alive env w)"
  have inv1: "singleton_inv ?w1" using assms by (rule get_instance_inv)
  have st: "singleton_instance ?w2 = singleton_instance ?w1" "connections ?w2 = connections ?w1"
    using keep_connection_alive_state[of env w] by simp_all
  show "connections ?w2 = (case singleton_instance ?w2 of None \<Rightarrow> [] | Some db \<Rightarrow> [db])"
    unfolding st using inv1 by (rule singleton_inv_connections)
  obtain cs where cs: "calls ?w2 = calls ?w1 @ cs"
    "cs = [] \<or> (\<exists>db. fst (get_instance env w) = Inr db \<and> cs = [Run db ''SELECT 1''])"
    using keep_connection_alive_state[of env w] by blast
  fix c db assume c: "c \<in> set (calls ?w2)" and db: "db \<in> set (call_dbs c)"
  from c cs(1) consider "c \<in> set (calls ?w1)" | "c \<in> set cs" by auto
  then have "db \<in> set (connections ?w1)"
  proof cases
    case 1
    with db show ?thesis using singleton_inv_calls[OF inv1] by blast
  next
    case 2
    with cs(2) obtain db' where db': "fst (get_instance env w) = Inr db'" "c = Run db' ''SELECT 1''"
      by auto
    then have "singleton_instance ?w1 = Some db'" using get_instance_result by blast
    then have "connections ?w1 = [db']" using singleton_inv_connections[OF inv1] by simp
    with db db' show ?thesis by simp
  qed
  then show "db \<in> set (connections ?w2)" unfolding st .
qed

lemma keep_connection_alive_keeps:
  assumes "singleton_instance w = Some db"
  shows "singleton_instance (snd (keep_connection_alive env w)) = Some db"
  using keep_connection_alive_state[of env w] assms by (simp add: get_instance_Some)

lemma scheduler_loop_returns: "fst (scheduler_loop env n w) = Inr ()"
proof (induction n arbitrary: w)
  case 0
  then show ?case by simp
next
  case (Suc n)
  obtain w' where "keep_connection_alive env w = (Inr (), w')"
    using keep_connection_alive_returns[of env w] by (cases "keep_connection_alive env w") auto
  then show ?case using Suc.IH by simp
qed

lemma scheduler_loop_log:
  "length (log_records (snd (scheduler_loop env n w))) = length (log_records w) + n"
proof (induction n arbitrary: w)
  case 0
  then show ?case by simp
next
  case (Suc n)
  obtain w' where w': "keep_connection_alive env w = (Inr (), w')"
    using keep_connection_alive_returns[of env w] by (cases "keep_connection_alive env w") auto
  then have "length (log_records w') = Suc (length (log_records w))"
    using keep_connection_alive_log[of env w] by simp
  with w' show ?case using Suc.IH[of w'] by simp
qed

lemma get_instance_calls:
  "calls (snd (get_instance env w)) = calls w
   \<or> calls (snd (get_instance env w)) = calls w @ [Construct_SQLDatabase]"
  by (cases rule: get_instance_cases[where w = w and env = env]) simp_all

lemma keep_connection_alive_new_calls:
  "drop (length (calls w)) (calls (snd (keep_connection_alive env w)))
     \<in> {[], [Construct_SQLDatabase]}
   \<or> (\<exists>db. fst (get_instance env w) = Inr db
         \<and> singleton_instance (snd (keep_connection_alive env w)) = Some db
         \<and> drop (length (calls w)) (calls (snd (keep_connection_alive env w)))
              \<in> {[Run db ''SELECT 1''], [Construct_SQLDatabase, Run db ''SELECT 1'']})"
proof -
  let ?w1 = "snd (get_instance env w)"
  let ?w2 = "snd (keep_connection_alive env w)"
  obtain cs where cs: "calls ?w2 = calls ?w1 @ cs"
    "cs = [] \<or> (\<exists>db. fst (get_instance env w) = Inr db \<and> cs = [Run db ''SELECT 1''])"
    using keep_connection_alive_state[of env w] by blast
  have st: "singleton_instance ?w2 = singleton_instance ?w1"
    using keep_connection_alive_state[of env w] by simp
  from cs(2) show ?thesis
  proof
    assume "cs = []"
    with cs(1) get_instance_calls[of env w] show ?thesis by auto
  next
    assume "\<exists>db. fst (get_instance env w) = Inr db \<and> cs = [Run db ''SELECT 1'']"
    then obtain db where db: "fst (get_instance env w) = Inr db" "cs = [Run db ''SELECT 1'']"
      by blast
    then have "singleton_instance ?w2 = Some db" using st get_instance_result by simp
    moreover have "drop (length (calls w)) (calls ?w2)
              \<in> {[Run db ''SELECT 1''], [Construct_SQLDatabase, Run db ''SELECT 1'']}"
      using cs(1) db(2) get_instance_calls[of env w] by auto
    ultimately show ?thesis using db(1) by blast
  qed
qed

lemma keep_connection_alive_runs:
  assumes "fst (get_instance env w) = Inr db"
  shows "Run db ''SELECT 1'' \<in> set (drop (length (calls w)) (calls (snd (keep_connection_alive env w))))"
proof -
  have "calls (snd (keep_connection_alive env w))
      = calls (snd (get_instance env w)) @ [Run db ''SELECT 1'']"
    using assms
    by (cases rule: keep_connection_alive_body_cases[where w = w and env = env])
       (simp_all add: keep_connection_alive_alt logging_error_def logging_info_def)
  then show ?thesis using get_instance_calls[of env w] by auto
qed

section \<open>Runs of the process\<close>

lemma step_inv: "singleton_inv w \<Longrightarrow> singleton_inv (step env ev w)"
  by (cases ev) (simp_all add: post_query_inv keep_connection_alive_inv)

lemma step_keeps: "singleton_instance w = Some db \<Longrightarrow> singleton_instance (step env ev w) = Some db"
  by (cases ev) (simp_all add: post_query_keeps keep_connection_alive_keeps)

lemma process_inv: "singleton_inv w \<Longrightarrow> singleton_inv (process env evs w)"
  by (induction evs arbitrary: w) (simp_all add: step_inv)

lemma process_keeps:
  "singleton_instance w = Some db \<Longrightarrow> singleton_instance (process env evs w) = Some db"
  by (induction evs arbitrary: w) (simp_all add: step_keeps)

lemma initial_world_inv: "singleton_inv initial_world"
  by (simp add: singleton_inv_def initial_world_def)

section \<open>Normal forms of the normalization\<close>

lemma lower_char_idem: "lower_char (lower_char c) = lower_char c"
  by (auto simp add: lower_char_def split: option.splits if_splits)

lemma lower_char_space: "lower_char (CHR '' '') = CHR '' ''"
  by (simp add: lower_char_def)

lemma is_space_space: "is_space (CHR '' '')"
  by (simp add: is_space_def)

lemma fold_char_idem:
  "(let d = lower_char c in if d \<in> set ps then CHR '' '' else d) = e \<Longrightarrow>
   (let d = lower_char e in if d \<in> set ps then CHR '' '' else d) = e"
  by (auto simp add: Let_def lower_char_idem lower_char_space)

lemma replace_lower_map:
  "replace_punctuation ps (lower s) = map (\<lambda>c. let d = lower_char c in if d \<in> set ps then CHR '' '' else d) s"
  by (simp add: replace_punctuation_def lower_def Let_def)

lemma set_collapse_whitespace: "set (collapse_whitespace s) \<subseteq> insert (CHR '' '') (set s)"
proof (induction s rule: collapse_whitespace.induct)
  case 1
  then show ?case by simp
next
  case (2 c cs)
  have "set (dropWhile is_space cs) \<subseteq> set cs" by (rule set_dropWhileD[THEN subsetI]) 
  with 2 show ?case by (auto split: if_splits)
qed

lemma rstrip_Cons:
  "rstrip (c # cs) = (if rstrip cs = [] \<and> is_space c then [] else c # rstrip cs)"
  by (simp split: list.splits)

lemma set_rstrip: "set (rstrip s) \<subseteq> set s"
  by (induction s) (auto simp add: rstrip_Cons simp del: rstrip.simps(2))

lemma set_strip: "set (strip s) \<subseteq> set s"
  using set_rstrip[of "lstrip s"] set_dropWhileD[of _ is_space s] by (auto simp add: strip_def lstrip_def)

lemma collapse_whitespace_hd:
  "s \<noteq> [] \<Longrightarrow> \<not> is_space (hd s) \<Longrightarrow>
   collapse_whitespace s \<noteq> [] \<and> hd (collapse_whitespace s) = hd s"
  by (cases s) simp_all

lemma squeezed_Cons:
  "squeezed (c # s) \<longleftrightarrow>
     (is_space c \<longrightarrow> c = CHR '' '' \<and> (s = [] \<or> \<not> is_space (hd s))) \<and> squeezed s"
  by (cases s) auto

lemma squeezed_collapse_whitespace: "squeezed (collapse_whitespace s)"
proof (induction s rule: collapse_whitespace.induct)
  case 1
  then show ?case by simp
next
  case (2 c cs)
  show ?case
  proof (cases "is_space c")
    case True
    let ?r = "dropWhile is_space cs"
    have tail: "collapse_whitespace ?r = [] \<or> \<not> is_space (hd (collapse_whitespace ?r))"
    proof (cases "?r = []")
      case True
      then have "collapse_whitespace ?r = []" by (simp only: collapse_whitespace.simps)
      then show ?thesis by (rule disjI1)
    next
      case False
      then have "\<not> is_space (hd ?r)" by (rule hd_dropWhile)
      with False show ?thesis using collapse_whitespace_hd[of ?r] by simp
    qed
    have "squeezed (collapse_whitespace ?r)" using True 2 by (simp only:)
    with tail have "squeezed (CHR '' '' # collapse_whitespace ?r)"
      by (simp only: squeezed_Cons) blast
    with True show ?thesis by (simp only: collapse_whitespace.simps if_True)
  next
    case False
    with 2 show ?thesis by (simp add: squeezed_Cons)
  qed
qed

lemma collapse_whitespace_squeezed: "squeezed s \<Longrightarrow> collapse_whitespace s = s"
proof (induction s rule: squeezed.induct)
  case 1
  then show ?case by simp
next
  case (2 c)
  then show ?case by simp
next
  case (3 c d cs)
  then show ?case by auto
qed

lemma squeezed_dropWhile: "squeezed s \<Longrightarrow> squeezed (dropWhile is_space s)"
  by (induction s) (auto simp add: squeezed_Cons)

lemma rstrip_hd: "rstrip s \<noteq> [] \<Longrightarrow> hd (rstrip s) = hd s"
  by (cases s) (auto simp add: rstrip_Cons simp del: rstrip.simps(2) split: if_splits)

lemma squeezed_rstrip: "squeezed s \<Longrightarrow> squeezed (rstrip s)"
proof (induction s)
  case Nil
  then show ?case by simp
next
  case (Cons c cs)
  then have cs: "squeezed (rstrip cs)" by (simp add: squeezed_Cons)
  show ?case
  proof (cases "rstrip cs = []")
    case True
    with Cons.prems show ?thesis
      by (auto simp add: squeezed_Cons rstrip_Cons simp del: rstrip.simps(2))
  next
    case False
    then have "hd (rstrip cs) = hd cs" "cs \<noteq> []" using rstrip_hd by auto
    with Cons.prems cs False show ?thesis
      by (auto simp add: squeezed_Cons rstrip_Cons simp del: rstrip.simps(2))
  qed
qed

lemma squeezed_strip: "squeezed s \<Longrightarrow> squeezed (strip s)"
  by (simp add: strip_def lstrip_def squeezed_dropWhile squeezed_rstrip)

lemma rstrip_last: "rstrip s \<noteq> [] \<Longrightarrow> \<not> is_space (last (rstrip s))"
  by (induction s) (auto simp add: rstrip_Cons simp del: rstrip.simps(2) split: if_splits)

lemma trimmed_strip: "trimmed (strip s)"
proof (cases "strip s = []")
  case True
  then show ?thesis by (simp add: trimmed_def)
next
  case False
  then have ne: "rstrip (dropWhile is_space s) \<noteq> []" by (simp add: strip_def lstrip_def)
  have dne: "dropWhile is_space s \<noteq> []"
  proof
    assume "dropWhile is_space s = []"
    then have "rstrip (dropWhile is_space s) = rstrip []" by (rule arg_cong)
    then have "rstrip (dropWhile is_space s) = []" by (simp only: rstrip.simps(1))
    with ne show False by (rule notE)
  qed
  then have "\<not> is_space (hd (dropWhile is_space s))" by (rule hd_dropWhile)
  moreover have "hd (rstrip (dropWhile is_space s)) = hd (dropWhile is_space s)"
    using ne by (rule rstrip_hd)
  ultimately have "\<not> is_space (hd (strip s))" by (simp add: strip_def lstrip_def)
  moreover from ne have "\<not> is_space (last (strip s))"
    unfolding strip_def lstrip_def by (rule rstrip_last)
  ultimately show ?thesis by (simp add: trimmed_def)
qed

lemma rstrip_id: "s \<noteq> [] \<Longrightarrow> \<not> is_space (last s) \<Longrightarrow> rstrip s = s"
  by (induction s) (auto simp add: rstrip_Cons simp del: rstrip.simps(2) split: if_splits)

lemma strip_trimmed: "trimmed s \<Longrightarrow> strip s = s"
proof (cases s)
  case Nil
  then show ?thesis by (simp add: strip_def lstrip_def)
next
  case (Cons c cs)
  assume "trimmed s"
  with Cons have c: "\<not> is_space c" and l: "\<not> is_space (last s)" by (simp_all add: trimmed_def)
  from Cons c have "dropWhile is_space s = s" by simp
  moreover have "rstrip s = s" using _ l by (rule rstrip_id) (simp add: Cons)
  ultimately show ?thesis by (simp only: strip_def lstrip_def)
qed

lemma normalize_examples:
  "normalize_query ''-_,.'' ''Vendor-Name, Inc.'' = ''vendor name inc''"
  "normalize_query ''-_,.'' ''vendor name inc'' = ''vendor name inc''"
  "normalize_query ''-_,.'' ''VENDOR   NAME INC'' = ''vendor name inc''"
  by (simp_all add: normalize_query_def lower_def lower_char_def replace_punctuation_def is_space_def
      strip_def lstrip_def)


section \<open>The claims\<close>

text \<open>
  C2. Every exception raised inside the body of \<open>handle_query\<close> is logged with the
  message of the handler and the original exception, and the handler raises an
  \<open>HTTPException\<close> with status 500 and the fixed detail string. Whatever the handler
  raises is that \<open>HTTPException\<close>, so the response never carries the original exception.
  The body raises when any of its seven calls raises, and when the result of the agent
  has no key \<^verbatim>\<open>output\<close>.
\<close>

theorem handle_query_exception:
  "(fst (handle_query_body env userinput db w) = Inl e \<longrightarrow>
      fst (handle_query env userinput db w)
        = Inl (HTTPException 500 ''An error occurred while processing the request.'')
      \<and> log_records (snd (handle_query env userinput db w))
        = log_records w @ [LogRecord ERROR ''Error handling query:'' (Some e)])
   \<and> (fst (handle_query env userinput db w) = Inl x \<longrightarrow>
        x = HTTPException 500 ''An error occurred while processing the request.'')
   \<and> (i < length (query_calls env userinput db)
        \<and> (\<forall>j<i. raises env (calls w @ take j (query_calls env userinput db))
                    (query_calls env userinput db ! j) = None)
        \<and> raises env (calls w @ take i (query_calls env userinput db))
             (query_calls env userinput db ! i) = Some e \<longrightarrow>
      fst (handle_query_body env userinput db w) = Inl e)
   \<and> ((\<forall>j<length (query_calls env userinput db).
          raises env (calls w @ take j (query_calls env userinput db))
            (query_calls env userinput db ! j) = None)
        \<and> invoke_result env (calls w @ take 6 (query_calls env userinput db))
             (query_agent env userinput db) (query_text env userinput) ''output'' = None \<longrightarrow>
      fst (handle_query_body env userinput db w) = Inl (KeyError ''output''))"
proof (intro conjI impI)
  assume b: "fst (handle_query_body env userinput db w) = Inl e"
  then show "fst (handle_query env userinput db w)
        = Inl (HTTPException 500 ''An error occurred while processing the request.'')"
    by (simp add: handle_query_alt)
  from b show "log_records (snd (handle_query env userinput db w))
        = log_records w @ [LogRecord ERROR ''Error handling query:'' (Some e)]"
    using handle_query_body_frame[of env userinput db w]
    by (simp add: handle_query_alt logging_error_def)
next
  assume "fst (handle_query env userinput db w) = Inl x"
  then show "x = HTTPException 500 ''An error occurred while processing the request.''"
    by (cases "fst (handle_query_body env userinput db w)") (simp_all add: handle_query_alt)
next
  assume "i < length (query_calls env userinput db)
        \<and> (\<forall>j<i. raises env (calls w @ take j (query_calls env userinput db))
                    (query_calls env userinput db ! j) = None)
        \<and> raises env (calls w @ take i (query_calls env userinput db))
             (query_calls env userinput db ! i) = Some e"
  then have "attempt env (query_calls env userinput db) w
      = (Some e, w\<lparr>calls := calls w @ take (Suc i) (query_calls env userinput db)\<rparr>)"
    using attempt_raise_at by blast
  then show "fst (handle_query_body env userinput db w) = Inl e"
    by (simp add: handle_query_body_attempt)
next
  assume "(\<forall>j<length (query_calls env userinput db).
          raises env (calls w @ take j (query_calls env userinput db))
            (query_calls env userinput db ! j) = None)
        \<and> invoke_result env (calls w @ take 6 (query_calls env userinput db))
             (query_agent env userinput db) (query_text env userinput) ''output'' = None"
  then have "attempt env (query_calls env userinput db) w
      = (None, w\<lparr>calls := calls w @ query_calls env userinput db\<rparr>)"
    and "invoke_result env (calls w @ take 6 (query_calls env userinput db))
             (query_agent env userinput db) (query_text env userinput) ''output'' = None"
    using attempt_all_ok by blast+
  then show "fst (handle_query_body env userinput db w) = Inl (KeyError ''output'')"
    by (simp add: handle_query_body_attempt)
qed

theorem handle_query_exception_witness:
  "fst (handle_query_body timeout_env (ModelInput ''how many vendors?'') (SQLDatabase 0) initial_world)
     = Inl (Error ''timeout'')
   \<and> fst (handle_query timeout_env (ModelInput ''how many vendors?'') (SQLDatabase 0) initial_world)
     = Inl (HTTPException 500 ''An error occurred while processing the request.'')
   \<and> log_records (snd (handle_query timeout_env (ModelInput ''how many vendors?'') (SQLDatabase 0)
        initial_world))
     = [LogRecord ERROR ''Error handling query:'' (Some (Error ''timeout''))]"
proof -
  have raised: "fst (handle_query_body timeout_env (ModelInput ''how many vendors?'') (SQLDatabase 0)
      initial_world) = Inl (Error ''timeout'')"
    by (simp add: handle_query_body_attempt query_calls_def timeout_env_simps)
  have "log_records initial_world = []" by (simp add: initial_world_def)
  with raised handle_query_exception[where env = timeout_env
      and userinput = "ModelInput ''how many vendors?''" and db = "SQLDatabase 0"
      and w = initial_world and e = "Error ''timeout''", THEN conjunct1]
  show ?thesis by simp
qed

text \<open>
  C3. The system message handed to the agent is the instruction block as written: it
  still contains the placeholders \<^verbatim>\<open>{dialect}\<close>, \<^verbatim>\<open>{top_k}\<close>,
  \<^verbatim>\<open>{column_metadata}\<close> and \<^verbatim>\<open>{Metadata_Groupings}\<close>, every agent the handler
  creates has that block as its first and only system message, and the handler behaves
  the same whatever dialect the toolkit reports. The local \<open>top_k\<close> is bound to 10 and
  read by no statement.
\<close>

theorem handle_query_placeholders_unsubstituted:
  "contains prefix ''{dialect}'' \<and> contains prefix ''{top_k}''
   \<and> contains prefix ''{column_metadata}'' \<and> contains prefix ''{Metadata_Groupings}''
   \<and> (Create_sql_agent a \<in> set (drop (length (calls w)) (calls (snd (handle_query env userinput db w)))) \<longrightarrow>
        hd (prompt_messages (agent_prompt a)) = SystemMessage prefix
        \<and> (SystemMessage s \<in> set (prompt_messages (agent_prompt a)) \<longrightarrow> s = prefix))
   \<and> handle_query (env\<lparr>dialect_result := d\<rparr>) userinput db w = handle_query env userinput db w"
proof (intro conjI impI)
  assume "Create_sql_agent a \<in> set (drop (length (calls w)) (calls (snd (handle_query env userinput db w))))"
  then have "Create_sql_agent a \<in> set (query_calls env userinput db)"
    using new_calls_subset by blast
  then have a: "a = query_agent env userinput db" by (rule query_calls_members)
  then show "hd (prompt_messages (agent_prompt a)) = SystemMessage prefix"
    by (simp add: query_agent_def query_messages_def)
  assume "SystemMessage s \<in> set (prompt_messages (agent_prompt a))"
  with a show "s = prefix" by (simp add: query_agent_def query_messages_def)
next
  show "handle_query (env\<lparr>dialect_result := d\<rparr>) userinput db w = handle_query env userinput db w"
    by (simp add: handle_query_def handle_query_body_dialect)
qed (rule prefix_dialect prefix_top_k prefix_column_metadata prefix_Metadata_Groupings)+

theorem handle_query_placeholders_unsubstituted_witness:
  "Create_sql_agent (query_agent example_env (ModelInput ''how many vendors?'') (SQLDatabase 0))
     \<in> set (drop (length (calls initial_world))
          (calls (snd (handle_query example_env (ModelInput ''how many vendors?'') (SQLDatabase 0)
             initial_world))))
   \<and> hd (prompt_messages (agent_prompt
        (query_agent example_env (ModelInput ''how many vendors?'') (SQLDatabase 0))))
      = SystemMessage prefix"
proof -
  have made: "Create_sql_agent (query_agent example_env (ModelInput ''how many vendors?'') (SQLDatabase 0))
     \<in> set (drop (length (calls initial_world))
          (calls (snd (handle_query example_env (ModelInput ''how many vendors?'') (SQLDatabase 0)
             initial_world))))"
    by (simp add: example_run_calls) (simp add: initial_world_def query_calls_def)
  with handle_query_placeholders_unsubstituted[where env = example_env
      and userinput = "ModelInput ''how many vendors?''" and db = "SQLDatabase 0"
      and w = initial_world
      and a = "query_agent example_env (ModelInput ''how many vendors?'') (SQLDatabase 0)"]
  show ?thesis by blast
qed

text \<open>
  C4. The conversation is built in this order: the system instruction block, the user's
  question, the trailing instruction block, the placeholder for the agent's scratchpad.
  Every prompt the handler builds and every agent it creates carries exactly this list,
  and the list is built whenever the four calls before it do not raise. The first block
  holds the role, the responsibilities and the construction rules; the trailing block
  holds the fallback and the formatting rules.
\<close>

theorem handle_query_conversation_order:
  "(From_messages ms \<in> set (drop (length (calls w)) (calls (snd (handle_query env userinput db w)))) \<longrightarrow>
      ms = [SystemMessage prefix, HumanMessage (str_of env userinput), AIMessage suffix,
            MessagesPlaceholder ''agent_scratchpad''])
   \<and> (Create_sql_agent a \<in> set (drop (length (calls w)) (calls (snd (handle_query env userinput db w)))) \<longrightarrow>
      prompt_messages (agent_prompt a) =
         [SystemMessage prefix, HumanMessage (str_of env userinput), AIMessage suffix,
          MessagesPlaceholder ''agent_scratchpad''])
   \<and> ((\<forall>j<4. raises env (calls w @ take j (query_calls env userinput db))
                 (query_calls env userinput db ! j) = None) \<longrightarrow>
      From_messages [SystemMessage prefix, HumanMessage (str_of env userinput), AIMessage suffix,
                     MessagesPlaceholder ''agent_scratchpad'']
        \<in> set (drop (length (calls w)) (calls (snd (handle_query env userinput db w)))))
   \<and> contains prefix ''You are an advanced SQL database assistant''
   \<and> contains prefix ''### Responsibilities:''
   \<and> contains prefix ''### SQL Query Construction:''
   \<and> contains suffix ''If asked about the database structure, table design, or unavailable data, respond politely:''
   \<and> contains suffix ''Use **Markdown** tables with proper column headers and alignments.''"
proof (intro conjI impI)
  assume "From_messages ms \<in> set (drop (length (calls w)) (calls (snd (handle_query env userinput db w))))"
  then have "From_messages ms \<in> set (query_calls env userinput db)"
    using new_calls_subset by blast
  then have "ms = query_messages env userinput" by (rule query_calls_members)
  then show "ms = [SystemMessage prefix, HumanMessage (str_of env userinput), AIMessage suffix,
            MessagesPlaceholder ''agent_scratchpad'']"
    by (simp add: query_messages_def)
next
  assume "Create_sql_agent a \<in> set (drop (length (calls w)) (calls (snd (handle_query env userinput db w))))"
  then have "Create_sql_agent a \<in> set (query_calls env userinput db)"
    using new_calls_subset by blast
  then have "a = query_agent env userinput db" by (rule query_calls_members)
  then show "prompt_messages (agent_prompt a) =
         [SystemMessage prefix, HumanMessage (str_of env userinput), AIMessage suffix,
          MessagesPlaceholder ''agent_scratchpad'']"
    by (simp add: query_agent_def query_messages_def)
next
  assume "\<forall>j<4. raises env (calls w @ take j (query_calls env userinput db))
                 (query_calls env userinput db ! j) = None"
  then have "query_calls env userinput db ! 4
     \<in> set (drop (length (calls w)) (calls (snd (handle_query env userinput db w))))"
    by (intro new_calls_reach) simp_all
  then show "From_messages [SystemMessage prefix, HumanMessage (str_of env userinput), AIMessage suffix,
                     MessagesPlaceholder ''agent_scratchpad'']
        \<in> set (drop (length (calls w)) (calls (snd (handle_query env userinput db w))))"
    by (simp add: query_calls_nth query_messages_def)
qed (rule prefix_role prefix_responsibilities prefix_construction suffix_fallback suffix_formatting)+

theorem handle_query_conversation_order_witness:
  "map (\<lambda>j. raises example_env
          (calls initial_world
             @ take j (query_calls example_env (ModelInput ''how many vendors?'') (SQLDatabase 0)))
          (query_calls example_env (ModelInput ''how many vendors?'') (SQLDatabase 0) ! j))
       [0, 1, 2, 3]
     = [None, None, None, None]
   \<and> From_messages [SystemMessage prefix, HumanMessage ''how many vendors?'', AIMessage suffix,
                     MessagesPlaceholder ''agent_scratchpad'']
        \<in> set (calls (snd (handle_query example_env (ModelInput ''how many vendors?'') (SQLDatabase 0)
             initial_world)))"
proof -
  have ok: "\<forall>j<4. raises example_env (calls initial_world @ take j (query_calls example_env (ModelInput ''how many vendors?'') (SQLDatabase 0)))
                 (query_calls example_env (ModelInput ''how many vendors?'') (SQLDatabase 0) ! j) = None"
    by (simp add: example_env_simps)
  have "calls initial_world = []" by (simp add: initial_world_def)
  with ok handle_query_conversation_order[where env = example_env
      and userinput = "ModelInput ''how many vendors?''" and db = "SQLDatabase 0"
      and w = initial_world, THEN conjunct2, THEN conjunct2, THEN conjunct1]
  show ?thesis by (simp add: example_env_simps)
qed

text \<open>
  C5. When the handler answers, its answer is the dictionary with the single key
  \<^verbatim>\<open>response\<close>, whose value is the value under \<^verbatim>\<open>output\<close> in the dictionary the
  agent returned for the text \<^verbatim>\<open>Now answer this query: \<close> followed by the request;
  and it answers whenever no call raises and that key is present.
\<close>

theorem handle_query_response:
  "(fst (handle_query env userinput db w) = Inr r \<longrightarrow>
      calls (snd (handle_query env userinput db w)) = calls w @ query_calls env userinput db
      \<and> (\<exists>out. invoke_result env (calls w @ take 6 (query_calls env userinput db))
                  (query_agent env userinput db)
                  (''Now answer this query: '' @ str_of env userinput) ''output'' = Some out
            \<and> r = [''response'' \<mapsto> out])
      \<and> dom r = {''response''})
   \<and> ((\<forall>j<7. raises env (calls w @ take j (query_calls env userinput db))
                 (query_calls env userinput db ! j) = None)
       \<and> invoke_result env (calls w @ take 6 (query_calls env userinput db))
            (query_agent env userinput db)
            (''Now answer this query: '' @ str_of env userinput) ''output'' = Some out \<longrightarrow>
      handle_query env userinput db w
        = (Inr [''response'' \<mapsto> out], w\<lparr>calls := calls w @ query_calls env userinput db\<rparr>))"
proof (intro conjI impI)
  assume ok: "fst (handle_query env userinput db w) = Inr r"
  then have body: "fst (handle_query_body env userinput db w) = Inr r"
    by (cases "fst (handle_query_body env userinput db w)") (simp_all add: handle_query_alt)
  obtain x w' where att: "attempt env (query_calls env userinput db) w = (x, w')"
    by (cases "attempt env (query_calls env userinput db) w")
  with body have x: "x = None"
    by (cases x) (simp_all add: handle_query_body_attempt)
  with att have w': "w' = w\<lparr>calls := calls w @ query_calls env userinput db\<rparr>"
    using attempt_None[of env "query_calls env userinput db" w] by simp
  from att w' show "calls (snd (handle_query env userinput db w)) = calls w @ query_calls env userinput db"
    by (simp add: handle_query_calls handle_query_body_snd)
  from body att x show "\<exists>out. invoke_result env (calls w @ take 6 (query_calls env userinput db))
                  (query_agent env userinput db)
                  (''Now answer this query: '' @ str_of env userinput) ''output'' = Some out
            \<and> r = [''response'' \<mapsto> out]"
    by (auto simp add: handle_query_body_attempt query_text_def split: option.splits)
  then obtain out where "r = [''response'' \<mapsto> out]" by blast
  then show "dom r = {''response''}" by simp
next
  assume "(\<forall>j<7. raises env (calls w @ take j (query_calls env userinput db))
                 (query_calls env userinput db ! j) = None)
       \<and> invoke_result env (calls w @ take 6 (query_calls env userinput db))
            (query_agent env userinput db)
            (''Now answer this query: '' @ str_of env userinput) ''output'' = Some out"
  moreover have "length (query_calls env userinput db) = 7" by (simp add: query_calls_def)
  ultimately have "attempt env (query_calls env userinput db) w
      = (None, w\<lparr>calls := calls w @ query_calls env userinput db\<rparr>)"
    and "invoke_result env (calls w @ take 6 (query_calls env userinput db))
            (query_agent env userinput db) (query_text env userinput) ''output'' = Some out"
    using attempt_all_ok[of "query_calls env userinput db" env w] by (simp_all add: query_text_def)
  then show "handle_query env userinput db w
        = (Inr [''response'' \<mapsto> out], w\<lparr>calls := calls w @ query_calls env userinput db\<rparr>)"
    by (simp add: handle_query_def handle_query_body_attempt)
qed

theorem handle_query_response_witness:
  "map (\<lambda>j. raises example_env
          (calls initial_world
             @ take j (query_calls example_env (ModelInput ''how many vendors?'') (SQLDatabase 0)))
          (query_calls example_env (ModelInput ''how many vendors?'') (SQLDatabase 0) ! j))
       [0, 1, 2, 3, 4, 5, 6]
     = [None, None, None, None, None, None, None]
   \<and> handle_query example_env (ModelInput ''how many vendors?'') (SQLDatabase 0) initial_world
       = (Inr [''response'' \<mapsto> ''There are 3 vendors.''],
          initial_world\<lparr>calls := calls initial_world
             @ query_calls example_env (ModelInput ''how many vendors?'') (SQLDatabase 0)\<rparr>)"
proof -
  have ok: "\<forall>j<7. raises example_env (calls initial_world
              @ take j (query_calls example_env (ModelInput ''how many vendors?'') (SQLDatabase 0)))
            (query_calls example_env (ModelInput ''how many vendors?'') (SQLDatabase 0) ! j) = None"
    by (simp add: example_env_simps)
  have out: "invoke_result example_env (calls initial_world
              @ take 6 (query_calls example_env (ModelInput ''how many vendors?'') (SQLDatabase 0)))
            (query_agent example_env (ModelInput ''how many vendors?'') (SQLDatabase 0))
            (''Now answer this query: '' @ str_of example_env (ModelInput ''how many vendors?''))
            ''output'' = Some ''There are 3 vendors.''"
    by (simp add: example_env_simps)
  from ok out handle_query_response[where env = example_env
      and userinput = "ModelInput ''how many vendors?''" and db = "SQLDatabase 0"
      and w = initial_world and out = "''There are 3 vendors.''", THEN conjunct2]
  show ?thesis by (simp add: example_env_simps)
qed

text \<open>
  C10. An exception raised while the dependency \<open>get_db_connection\<close> is resolved leaves
  the route as it is: the handler is not called, so nothing is logged by it, no call of
  its body is made, and the exception is not replaced by the \<open>HTTPException\<close> with
  status 500 and the fixed detail.
\<close>

theorem dependency_failure_not_converted:
  "fst (get_db_connection env w) = Inl e \<longrightarrow>
     post_query env userinput w = (Inl e, snd (get_db_connection env w))
     \<and> log_records (snd (post_query env userinput w)) = log_records (snd (get_db_connection env w))
     \<and> calls (snd (post_query env userinput w)) = calls (snd (get_db_connection env w))
     \<and> (e \<noteq> HTTPException 500 ''An error occurred while processing the request.'' \<longrightarrow>
          fst (post_query env userinput w)
            \<noteq> Inl (HTTPException 500 ''An error occurred while processing the request.''))"
  by (cases "get_db_connection env w") (auto simp add: post_query_def)

theorem dependency_failure_not_converted_witness:
  "fst (get_db_connection unreachable_env initial_world) = Inl (Error ''connection refused'')
   \<and> fst (post_query unreachable_env (ModelInput ''how many vendors?'') initial_world)
       = Inl (Error ''connection refused'')
   \<and> log_records (snd (post_query unreachable_env (ModelInput ''how many vendors?'') initial_world)) = []"
proof -
  have raised: "get_db_connection unreachable_env initial_world
      = (Inl (Error ''connection refused''), initial_world\<lparr>calls := [Construct_SQLDatabase]\<rparr>)"
    by (simp add: get_db_connection_def get_instance_def and_then_def external_def
        unreachable_env_simps initial_world_def)
  then have "fst (get_db_connection unreachable_env initial_world) = Inl (Error ''connection refused'')"
    by simp
  with dependency_failure_not_converted[of unreachable_env initial_world
      "Error ''connection refused''" "ModelInput ''how many vendors?''"] raised
  show ?thesis by (simp add: initial_world_def)
qed

text \<open>
  C6. The keep-alive job is registered once, with the interval trigger. A run sends
  \<^verbatim>\<open>SELECT 1\<close>, and nothing else, to the connection the accessor returned, which is
  the stored instance. A run never raises: when fetching the connection or running the
  statement raises, the exception is logged with the message of the job and the run
  returns. So a loop that fires the job any number of times completes every firing,
  each leaving one log record.
\<close>

theorem keep_connection_alive_swallows:
  "fst (keep_connection_alive env w) = Inr ()
   \<and> (fst (keep_connection_alive_body env w) = Inl e \<longrightarrow>
        log_records (snd (keep_connection_alive env w))
          = log_records w @ [LogRecord ERROR ''Error in keep_connection_alive:'' (Some e)])
   \<and> (Run db sql \<in> set (drop (length (calls w)) (calls (snd (keep_connection_alive env w)))) \<longrightarrow>
        sql = ''SELECT 1'' \<and> singleton_instance (snd (keep_connection_alive env w)) = Some db)
   \<and> (fst (get_instance env w) = Inr db' \<longrightarrow>
        Run db' ''SELECT 1''
          \<in> set (drop (length (calls w)) (calls (snd (keep_connection_alive env w)))))
   \<and> fst (scheduler_loop env n w) = Inr ()
   \<and> length (log_records (snd (scheduler_loop env n w))) = length (log_records w) + n
   \<and> map func scheduler_jobs = [Keep_connection_alive]
   \<and> map trigger scheduler_jobs = [''interval'']"
proof (intro conjI impI)
  show "fst (keep_connection_alive env w) = Inr ()" by (rule keep_connection_alive_returns)
  show "fst (scheduler_loop env n w) = Inr ()" by (rule scheduler_loop_returns)
  show "length (log_records (snd (scheduler_loop env n w))) = length (log_records w) + n"
    by (rule scheduler_loop_log)
  show "map func scheduler_jobs = [Keep_connection_alive]" by (simp add: scheduler_jobs_def)
  show "map trigger scheduler_jobs = [''interval'']" by (simp add: scheduler_jobs_def)
next
  assume "fst (keep_connection_alive_body env w) = Inl e"
  then show "log_records (snd (keep_connection_alive env w))
          = log_records w @ [LogRecord ERROR ''Error in keep_connection_alive:'' (Some e)]"
    by (simp add: keep_connection_alive_log)
next
  assume r: "Run db sql \<in> set (drop (length (calls w)) (calls (snd (keep_connection_alive env w))))"
  with keep_connection_alive_new_calls[of w env] show "sql = ''SELECT 1''" by auto
  from r keep_connection_alive_new_calls[of w env]
  show "singleton_instance (snd (keep_connection_alive env w)) = Some db" by auto
next
  assume "fst (get_instance env w) = Inr db'"
  then show "Run db' ''SELECT 1''
          \<in> set (drop (length (calls w)) (calls (snd (keep_connection_alive env w))))"
    by (rule keep_connection_alive_runs)
qed

theorem keep_connection_alive_swallows_witness:
  "fst (keep_connection_alive_body unreachable_env initial_world) = Inl (Error ''connection refused'')
   \<and> fst (keep_connection_alive unreachable_env initial_world) = Inr ()
   \<and> log_records (snd (keep_connection_alive unreachable_env initial_world))
       = [LogRecord ERROR ''Error in keep_connection_alive:'' (Some (Error ''connection refused''))]"
proof -
  have raised: "fst (keep_connection_alive_body unreachable_env initial_world)
      = Inl (Error ''connection refused'')"
    by (simp add: keep_connection_alive_body_def get_instance_def and_then_def external_def
        unreachable_env_simps initial_world_def)
  have "log_records initial_world = []" by (simp add: initial_world_def)
  with raised keep_connection_alive_swallows[where env = unreachable_env and w = initial_world
      and e = "Error ''connection refused''"]
  show ?thesis by simp
qed

text \<open>
  C7. The interval of the keep-alive job is 999999 seconds, which is not 10 and is more
  than eleven days, while the comment above the registration says the job runs every
  10 seconds.
\<close>

theorem keep_alive_interval:
  "map seconds scheduler_jobs = [999999]
   \<and> map (\<lambda>j. seconds j = 10) scheduler_jobs = [False]
   \<and> map (\<lambda>j. seconds j div (24 * 60 * 60)) scheduler_jobs = [11]
   \<and> contains scheduler_comment ''every 10 seconds''"
  by (simp add: scheduler_jobs_def scheduler_comment_def)

text \<open>
  C9. After any sequence of requests and keep-alive firings from the start of the
  process, at most one connection has been constructed. The dependency
  \<open>get_db_connection\<close> returns what \<open>get_instance\<close> returns. Once an instance is
  stored it is the only connection, every later call returns it without constructing
  anything, and it stays stored whatever happens next. A call that returns a connection
  leaves that connection stored as the only one. Every call the keeper or the handler
  made on a connection was made on the stored instance.
\<close>

theorem singleton_connection:
  "length (connections (process env evs initial_world)) \<le> 1
   \<and> get_db_connection env (process env evs initial_world)
       = get_instance env (process env evs initial_world)
   \<and> (singleton_instance (process env evs initial_world) = Some db \<longrightarrow>
        connections (process env evs initial_world) = [db]
        \<and> get_instance env (process env evs initial_world) = (Inr db, process env evs initial_world)
        \<and> singleton_instance (process env evs' (process env evs initial_world)) = Some db)
   \<and> (fst (get_instance env (process env evs initial_world)) = Inr db1 \<longrightarrow>
        singleton_instance (snd (get_instance env (process env evs initial_world))) = Some db1
        \<and> connections (snd (get_instance env (process env evs initial_world))) = [db1])
   \<and> (c \<in> set (calls (process env evs initial_world)) \<and> db2 \<in> set (call_dbs c) \<longrightarrow>
        singleton_instance (process env evs initial_world) = Some db2)"
proof -
  let ?w = "process env evs initial_world"
  have inv: "singleton_inv ?w" using initial_world_inv by (rule process_inv)
  have conn: "connections ?w = (case singleton_instance ?w of None \<Rightarrow> [] | Some db \<Rightarrow> [db])"
    using inv by (rule singleton_inv_connections)
  have one: "length (connections ?w) \<le> 1"
    by (cases "singleton_instance ?w") (simp_all add: conn)
  have stored: "singleton_instance ?w = Some db \<longrightarrow>
        connections ?w = [db] \<and> get_instance env ?w = (Inr db, ?w)
        \<and> singleton_instance (process env evs' ?w) = Some db"
    using conn by (simp add: get_instance_Some process_keeps)
  have first: "fst (get_instance env ?w) = Inr db1 \<longrightarrow>
        singleton_instance (snd (get_instance env ?w)) = Some db1
        \<and> connections (snd (get_instance env ?w)) = [db1]"
  proof
    assume r: "fst (get_instance env ?w) = Inr db1"
    then have s: "singleton_instance (snd (get_instance env ?w)) = Some db1"
      by (rule get_instance_result)
    have "singleton_inv (snd (get_instance env ?w))" using inv by (rule get_instance_inv)
    then have "connections (snd (get_instance env ?w)) = [db1]"
      using s singleton_inv_connections by fastforce
    with s show "singleton_instance (snd (get_instance env ?w)) = Some db1
        \<and> connections (snd (get_instance env ?w)) = [db1]" by simp
  qed
  have used: "c \<in> set (calls ?w) \<and> db2 \<in> set (call_dbs c) \<longrightarrow> singleton_instance ?w = Some db2"
  proof
    assume "c \<in> set (calls ?w) \<and> db2 \<in> set (call_dbs c)"
    then have "db2 \<in> set (connections ?w)" using singleton_inv_calls[OF inv] by blast
    then show "singleton_instance ?w = Some db2"
      by (cases "singleton_instance ?w") (simp_all add: conn)
  qed
  from one stored first used show ?thesis by (simp add: get_db_connection_eq)
qed

theorem singleton_connection_witness:
  "singleton_instance (process example_env [Keep_alive] initial_world) = Some (SQLDatabase 0)
   \<and> connections (process example_env [Keep_alive] initial_world) = [SQLDatabase 0]
   \<and> get_instance example_env (process example_env [Keep_alive] initial_world)
       = (Inr (SQLDatabase 0), process example_env [Keep_alive] initial_world)
   \<and> singleton_instance (process example_env [Query (ModelInput ''how many vendors?''), Keep_alive]
        (process example_env [Keep_alive] initial_world)) = Some (SQLDatabase 0)"
proof -
  have "get_instance example_env initial_world =
     (Inr (SQLDatabase (length (connections initial_world))),
      initial_world\<lparr>calls := calls initial_world @ [Construct_SQLDatabase],
        singleton_instance := Some (SQLDatabase (length (connections initial_world))),
        connections := connections initial_world @ [SQLDatabase (length (connections initial_world))]\<rparr>)"
    by (rule get_instance_construct) (simp_all add: initial_world_def example_env_simps)
  then have "singleton_instance (snd (get_instance example_env initial_world)) = Some (SQLDatabase 0)"
    by (simp add: initial_world_def)
  then have stored: "singleton_instance (process example_env [Keep_alive] initial_world)
      = Some (SQLDatabase 0)"
    using keep_connection_alive_state[of example_env initial_world] by simp
  from stored singleton_connection[where env = example_env and evs = "[Keep_alive]"
      and db = "SQLDatabase 0"
      and evs' = "[Query (ModelInput ''how many vendors?''), Keep_alive]"]
  show ?thesis by blast
qed

text \<open>
  C8. The normalization transformation is idempotent: for every set of punctuation
  characters and every string, normalizing a normalized string returns it unchanged.
\<close>

theorem normalize_query_idempotent: "normalize_query ps (normalize_query ps s) = normalize_query ps s"
proof -
  let ?g = "\<lambda>c. let d = lower_char c in if d \<in> set ps then CHR '' '' else d"
  let ?t = "normalize_query ps s"
  have "set ?t \<subseteq> insert (CHR '' '') (set (map ?g s))"
    using set_strip set_collapse_whitespace unfolding normalize_query_def replace_lower_map by blast
  then have "\<forall>c \<in> set ?t. ?g c = c"
    using fold_char_idem[of _ ps] by (auto simp add: Let_def lower_char_space lower_char_idem)
  then have "map ?g ?t = ?t" by (simp add: map_idI)
  then have fold: "replace_punctuation ps (lower ?t) = ?t" by (simp only: replace_lower_map)
  have "squeezed ?t" unfolding normalize_query_def
    by (intro squeezed_strip squeezed_collapse_whitespace)
  then have collapse: "collapse_whitespace ?t = ?t" by (rule collapse_whitespace_squeezed)
  have "trimmed ?t" unfolding normalize_query_def by (rule trimmed_strip)
  then have "strip ?t = ?t" by (rule strip_trimmed)
  then have "strip (collapse_whitespace (replace_punctuation ps (lower ?t))) = ?t"
    by (simp only: fold collapse)
  then show ?thesis by (simp add: normalize_query_def[of ps "normalize_query ps s"])
qed

end
